theory Spec2Isabelle
  imports Complex_Main "HOL-Library.Word"
begin

section \<open>Arrays, errors and loops\<close>

text \<open>
  The program is \<^verbatim>\<open>axiprop/utils.py\<close>. Its arrays are numpy arrays of IEEE doubles;
  here a floating-point number is a real (or complex) number and every operation is exact.
  An array is its shape together with its elements in row-major (C) order, as numpy stores
  a contiguous array. One-dimensional inputs (\<^verbatim>\<open>kz\<close>, \<^verbatim>\<open>t\<close>, \<^verbatim>\<open>r\<close>, \<^verbatim>\<open>x\<close>, \<^verbatim>\<open>y\<close>)
  are plain lists.

  The module imports numba and wraps the four kernels and \<^verbatim>\<open>get_E_r\<close> in
  \<^verbatim>\<open>njit(parallel=True, fastmath=True)\<close>, so these five only ever run compiled. Compiled
  code multiplies arrays of equal size only (a length of one is not stretched), wraps a
  negative index, and checks no index against its axis. The other functions are plain
  Python over numpy and scipy.
\<close>

record 'a ndarray =
  shape :: "nat list"
  data :: "'a list"

definition wf_array :: "'a ndarray \<Rightarrow> bool" where
  "wf_array a = (length (data a) = prod_list (shape a))"

text \<open>
  What a call can raise, and three ways in which compiled code leaves the model.
  \<open>NotANumber\<close> stands for a division by zero inside a numpy array: numpy then stores
  \<^verbatim>\<open>nan\<close> or \<^verbatim>\<open>inf\<close> (with a warning), which is no real number. A division of Python
  floats by zero raises \<^verbatim>\<open>ZeroDivisionError\<close>.
  \<^item> \<open>TypingError\<close>: numba refuses to compile the function for arguments of these ranks,
    before anything runs.
  \<^item> \<open>SizeMismatch\<close>: the operands of a compiled array product differ in size. The
    statement is not executed; numba's size check raises an \<^verbatim>\<open>AssertionError\<close>, which a
    parallel loop need not hand to the caller of this call.
  \<^item> \<open>OutOfBounds\<close>: an index lies beyond its axis. Compiled code reads or writes there
    unchecked; what the program then does is not determined by its source.

  No theorem below says what the program does after \<open>SizeMismatch\<close> or \<open>OutOfBounds\<close>.
\<close>

datatype error =
  AssertionError | ValueError | IndexError | OverflowError | ZeroDivisionError | NotANumber
  | TypingError | SizeMismatch | OutOfBounds

text \<open>
  A kernel writes into the array its caller passed. Its outcome is the array as the call
  left it, together with the exception when one ended the call.
\<close>

type_synonym 's outcome = "(error \<times> 's) + 's"

definition attempt :: "'s \<Rightarrow> error + 'a \<Rightarrow> ('a \<Rightarrow> 's outcome) \<Rightarrow> 's outcome" where
  "attempt s r k = (case r of Inl e \<Rightarrow> Inl (e, s) | Inr v \<Rightarrow> k v)"

text \<open>\<^verbatim>\<open>for i in range(n): body\<close>, over the list of the indices; an exception ends the loop.\<close>

fun for_range :: "nat list \<Rightarrow> (nat \<Rightarrow> 's \<Rightarrow> 's outcome) \<Rightarrow> 's \<Rightarrow> 's outcome" where
  "for_range [] body s = Inr s"
| "for_range (i # is) body s =
     (case body i s of Inl e \<Rightarrow> Inl e | Inr s' \<Rightarrow> for_range is body s')"

text \<open>Python's index into an axis of length \<open>n\<close>: a negative index counts from the end.\<close>

definition norm_index :: "int \<Rightarrow> nat \<Rightarrow> error + nat" where
  "norm_index i n =
     (let j = (if i < 0 then i + int n else i)
      in if 0 \<le> j \<and> j < int n then Inr (nat j) else Inl IndexError)"

text \<open>
  The start of the block \<^verbatim>\<open>a[i0, i1, ...]\<close> in the flat data of an array of shape \<open>shp\<close>,
  in a compiled kernel (indices are loop counters, so never negative): more indices than
  axes do not compile, and an index beyond its axis is not checked.
\<close>

fun offset :: "nat list \<Rightarrow> nat list \<Rightarrow> nat \<Rightarrow> error + nat" where
  "offset [] shp acc = Inr (acc * prod_list shp)"
| "offset (i # is) [] acc = Inl TypingError"
| "offset (i # is) (n # shp) acc =
     (if i < n then offset is shp (acc * n + i) else Inl OutOfBounds)"

text \<open>\<^verbatim>\<open>a[idx] = v\<close> with a scalar \<open>v\<close>: every element of the block becomes \<open>v\<close>.\<close>

definition setitem :: "'a ndarray \<Rightarrow> nat list \<Rightarrow> 'a \<Rightarrow> error + 'a ndarray" where
  "setitem a idx v =
     (case offset idx (shape a) 0 of
        Inl e \<Rightarrow> Inl e
      | Inr b \<Rightarrow>
          let P = prod_list (drop (length idx) (shape a))
          in Inr (a\<lparr>data := map (\<lambda>q. if b \<le> q \<and> q < b + P then v else data a ! q)
                                 [0..<length (data a)]\<rparr>))"

text \<open>
  \<^verbatim>\<open>a[i] += rhs\<close>: \<^verbatim>\<open>a[i]\<close> is read first, then the right-hand side is evaluated, then
  the sum is stored; the scalar is added to every element of the block.
\<close>

definition iadd_item :: "real ndarray \<Rightarrow> nat \<Rightarrow> error + real \<Rightarrow> error + real ndarray" where
  "iadd_item a i rhs =
     (case offset [i] (shape a) 0 of
        Inl e \<Rightarrow> Inl e
      | Inr b \<Rightarrow>
          (case rhs of
             Inl e \<Rightarrow> Inl e
           | Inr v \<Rightarrow>
               let P = prod_list (drop 1 (shape a))
               in Inr (a\<lparr>data := map (\<lambda>q. if b \<le> q \<and> q < b + P then data a ! q + v
                                           else data a ! q)
                                      [0..<length (data a)]\<rparr>)))"

section \<open>The reconstruction kernels\<close>

text \<open>
  \<^verbatim>\<open>c\<close> is \<^verbatim>\<open>scipy.constants.c\<close>; the kernels take it as a parameter, so that a
  scenario with another value of \<open>c\<close> can be stated.
\<close>

definition speed_of_light :: real where
  "speed_of_light = 299792458"

text \<open>\<^verbatim>\<open>np.exp(1j * kz * c * t[it])\<close>\<close>

definition FFT_factor :: "real \<Rightarrow> real list \<Rightarrow> real \<Rightarrow> complex list" where
  "FFT_factor c kz tt =
     map (\<lambda>k. exp (\<i> * complex_of_real k * complex_of_real c * complex_of_real tt)) kz"

text \<open>
  The product of two one-dimensional arrays in a compiled kernel: element by element when
  the lengths agree; no length is stretched.
\<close>

definition bmul :: "complex list \<Rightarrow> complex list \<Rightarrow> error + complex list" where
  "bmul xs ys =
     (if length xs = length ys then Inr (map2 (*) xs ys) else Inl SizeMismatch)"

text \<open>\<^verbatim>\<open>np.real(col * FFT_factor).sum()\<close>\<close>

definition synth :: "complex list \<Rightarrow> complex list \<Rightarrow> error + real" where
  "synth col F = (case bmul col F of Inl e \<Rightarrow> Inl e | Inr p \<Rightarrow> Inr (sum_list (map Re p)))"

text \<open>
  \<^verbatim>\<open>u[:, ir]\<close> of a two-dimensional \<open>u\<close>, and \<^verbatim>\<open>u[:, ix, iy]\<close> of a three-dimensional
  one, in a compiled kernel: a negative \<open>iy\<close> wraps, and an index that is still beyond its
  axis is not checked.
\<close>

definition column2 :: "'a ndarray \<Rightarrow> nat \<Rightarrow> error + 'a list" where
  "column2 u ir =
     (case shape u of
        [Nkz, Nr] \<Rightarrow>
          if ir < Nr then Inr (map (\<lambda>k. data u ! (k * Nr + ir)) [0..<Nkz]) else Inl OutOfBounds
      | _ \<Rightarrow> Inl TypingError)"

definition column3 :: "'a ndarray \<Rightarrow> nat \<Rightarrow> int \<Rightarrow> error + 'a list" where
  "column3 u ix iy =
     (case shape u of
        [Nkz, Nx, Ny] \<Rightarrow>
          if ix < Nx then
            (case norm_index iy Ny of
               Inl e \<Rightarrow> Inl OutOfBounds
             | Inr j \<Rightarrow> Inr (map (\<lambda>k. data u ! ((k * Nx + ix) * Ny + j)) [0..<Nkz]))
          else Inl OutOfBounds
      | _ \<Rightarrow> Inl TypingError)"

text \<open>
  \<^verbatim>\<open>get_temporal_1d(u, u_t, t, kz, Nr_loc)\<close>. To compile, \<^verbatim>\<open>Nkz, Nr = u.shape\<close> needs two
  axes and \<^verbatim>\<open>u_t.shape[-1]\<close> needs one.
\<close>

definition get_temporal_1d ::
  "real \<Rightarrow> complex ndarray \<Rightarrow> real ndarray \<Rightarrow> real list \<Rightarrow> real list \<Rightarrow> int
     \<Rightarrow> real ndarray outcome" where
  "get_temporal_1d c u u_t t kz Nr_loc =
     (case shape u of
        [Nkz, Nr] \<Rightarrow>
          let Nt = length t in
          if shape u_t = [] then Inl (TypingError, u_t)
          else if last (shape u_t) \<noteq> Nr then Inl (AssertionError, u_t)
          else
            for_range [0..<Nt] (\<lambda>it u_t.
              let F = FFT_factor c kz (t ! it) in
              for_range [0..<nat Nr_loc] (\<lambda>ir u_t.
                attempt u_t (iadd_item u_t it
                           (case column2 u ir of Inl e \<Rightarrow> Inl e | Inr col \<Rightarrow> synth col F))
                    Inr) u_t) u_t
      | _ \<Rightarrow> Inl (TypingError, u_t))"

text \<open>
  \<^verbatim>\<open>get_temporal_radial(u, u_t, t, kz)\<close>. To compile, \<^verbatim>\<open>u_t[it, ir] = ...\<close> needs a
  \<open>u_t\<close> of two axes at least.
\<close>

definition get_temporal_radial ::
  "real \<Rightarrow> complex ndarray \<Rightarrow> real ndarray \<Rightarrow> real list \<Rightarrow> real list \<Rightarrow> real ndarray outcome" where
  "get_temporal_radial c u u_t t kz =
     (case shape u of
        [Nkz, Nr] \<Rightarrow>
          let Nt = length t in
          if length (shape u_t) < 2 then Inl (TypingError, u_t)
          else if last (shape u_t) \<noteq> Nr then Inl (AssertionError, u_t)
          else if hd (shape u_t) \<noteq> Nt then Inl (AssertionError, u_t)
          else
            for_range [0..<Nt] (\<lambda>it u_t.
              let F = FFT_factor c kz (t ! it) in
              for_range [0..<Nr] (\<lambda>ir u_t.
                attempt u_t (column2 u ir) (\<lambda>col.
                attempt u_t (synth col F) (\<lambda>v.
                attempt u_t (setitem u_t [it, ir] v) Inr))) u_t) u_t
      | _ \<Rightarrow> Inl (TypingError, u_t))"

text \<open>
  \<^verbatim>\<open>get_temporal_slice2d(u, u_t, t, kz)\<close>; the line read is \<^verbatim>\<open>Ny//2-1\<close>. It asserts
  nothing about the leading axis of \<open>u_t\<close>.
\<close>

definition get_temporal_slice2d ::
  "real \<Rightarrow> complex ndarray \<Rightarrow> real ndarray \<Rightarrow> real list \<Rightarrow> real list \<Rightarrow> real ndarray outcome" where
  "get_temporal_slice2d c u u_t t kz =
     (case shape u of
        [Nkz, Nx, Ny] \<Rightarrow>
          let Nt = length t in
          if length (shape u_t) < 2 then Inl (TypingError, u_t)
          else if last (shape u_t) \<noteq> Nx then Inl (AssertionError, u_t)
          else
            for_range [0..<Nt] (\<lambda>it u_t.
              let F = FFT_factor c kz (t ! it) in
              for_range [0..<Nx] (\<lambda>ix u_t.
                attempt u_t (column3 u ix (int (Ny div 2) - 1)) (\<lambda>col.
                attempt u_t (synth col F) (\<lambda>v.
                attempt u_t (setitem u_t [it, ix] v) Inr))) u_t) u_t
      | _ \<Rightarrow> Inl (TypingError, u_t))"

text \<open>
  \<^verbatim>\<open>get_temporal_3d(u, t, kz)\<close>. \<^verbatim>\<open>np.empty\<close> returns an array of whatever the memory
  held: \<open>junk\<close> gives that content. The array is the kernel's own, so an exception leaves
  nothing behind.
\<close>

definition np_empty :: "(nat \<Rightarrow> real) \<Rightarrow> nat list \<Rightarrow> real ndarray" where
  "np_empty junk shp = \<lparr>shape = shp, data = map junk [0..<prod_list shp]\<rparr>"

definition get_temporal_3d ::
  "(nat \<Rightarrow> real) \<Rightarrow> real \<Rightarrow> complex ndarray \<Rightarrow> real list \<Rightarrow> real list \<Rightarrow> error + real ndarray" where
  "get_temporal_3d junk c u t kz =
     (case shape u of
        [Nkz, Nx, Ny] \<Rightarrow>
          let Nt = length t;
              u_t = np_empty junk [Nt, Nx, Ny]
          in (case
                for_range [0..<Nt] (\<lambda>it u_t.
                  let F = FFT_factor c kz (t ! it) in
                  for_range [0..<Nx] (\<lambda>ix u_t.
                    for_range [0..<Ny] (\<lambda>iy u_t.
                      attempt u_t (column3 u ix (int iy)) (\<lambda>col.
                      attempt u_t (synth col F) (\<lambda>v.
                      attempt u_t (setitem u_t [it, ix, iy] v) Inr))) u_t) u_t) u_t
              of Inl (e, _) \<Rightarrow> Inl e | Inr r \<Rightarrow> Inr r)
      | _ \<Rightarrow> Inl TypingError)"

section \<open>The single-time evaluator and the laser profile\<close>

text \<open>
  \<^verbatim>\<open>get_E_r(t, u, kz)\<close>, compiled like the kernels. With \<open>sp\<close> the axes of \<open>u\<close> after the
  leading one, \<^verbatim>\<open>(np.exp(1j*kz*c*t) * np.ones_like(u).T).T\<close> repeats the phase of mode \<open>b\<close>
  over \<open>sp\<close>; the leading axis of \<open>u\<close> must have the length of \<open>kz\<close>. The sum runs over the
  leading axis and is divided by \<^verbatim>\<open>FFT_factor.size\<close>, the number of all elements of
  \<^verbatim>\<open>FFT_factor\<close>. A \<open>u\<close> without axes is one number, multiplied with every phase.
\<close>

definition get_E_r :: "real \<Rightarrow> real \<Rightarrow> complex ndarray \<Rightarrow> real list \<Rightarrow> error + real ndarray" where
  "get_E_r c tt u kz =
     (let sp = tl (shape u);
          P = prod_list sp;
          K = length kz;
          ph = FFT_factor c kz tt
      in if shape u \<noteq> [] \<and> K \<noteq> hd (shape u) then Inl SizeMismatch
         else
           let FFT = \<lparr>shape = K # sp, data = map (\<lambda>q. ph ! (q div P)) [0..<K * P]\<rparr>;
               pr = map (\<lambda>q. data u ! (if shape u = [] then 0 else q) * data FFT ! q)
                        [0..<K * P];
               col_sums = map (\<lambda>j. sum_list (map (\<lambda>b. Re (pr ! (b * P + j))) [0..<K])) [0..<P];
               n_all = length (data FFT)
           in if col_sums \<noteq> [] \<and> n_all = 0 then Inl NotANumber
              else Inr \<lparr>shape = sp, data = map (\<lambda>v. v / real n_all) col_sums\<rparr>)"

text \<open>
  \<^verbatim>\<open>interp1d(x, y, kind='cubic', fill_value=fill, bounds_error=False)\<close> is scipy's. Its
  cubic spline is the parameter \<open>spline\<close> (it may refuse its input); what is modelled is what
  scipy documents around it: \<open>y\<close> needs an axis, its last axis has the length of \<open>x\<close>, a cubic
  needs four points, and a query below the least or above the greatest \<open>x\<close> gives the fill
  value, in an array of the shape of \<open>y\<close> without its last axis.
\<close>

definition interp1d ::
  "(real list \<Rightarrow> real ndarray \<Rightarrow> error + (real \<Rightarrow> real ndarray)) \<Rightarrow> real list \<Rightarrow> real ndarray
     \<Rightarrow> real \<Rightarrow> error + (real \<Rightarrow> real ndarray)" where
  "interp1d spline xs ys fill =
     (if shape ys = [] then Inl ValueError
      else if length xs \<noteq> last (shape ys) then Inl ValueError
      else
        (case spline xs ys of
           Inl e \<Rightarrow> Inl e
         | Inr f \<Rightarrow>
             if length xs < 4 then Inl ValueError
             else Inr (\<lambda>q. if q < Min (set xs) \<or> Max (set xs) < q
                            then \<lparr>shape = butlast (shape ys),
                                  data = replicate (prod_list (butlast (shape ys))) fill\<rparr>
                            else f q)))"

text \<open>
  \<^verbatim>\<open>class AxipropLaser(LaserProfile)\<close>. \<^verbatim>\<open>m_e\<close> and \<^verbatim>\<open>e\<close> are scipy's constants, taken
  as parameters like \<open>c\<close>. \<^verbatim>\<open>2*np.pi/lambda0\<close> divides Python floats.
\<close>

record AxipropLaser =
  propag_direction :: real
  gpu_capable :: bool
  las_u :: "complex ndarray"
  las_kz :: "real list"
  las_r :: "real list"
  time_offset :: real
  E0x :: real
  E0y :: real

definition AxipropLaser_init ::
  "real \<Rightarrow> real \<Rightarrow> real \<Rightarrow> real \<Rightarrow> complex ndarray \<Rightarrow> real list \<Rightarrow> real list \<Rightarrow> real \<Rightarrow> real \<Rightarrow> real
     \<Rightarrow> error + AxipropLaser" where
  "AxipropLaser_init c m_e e a0 u kz r t_off theta_pol lambda0 =
     (if lambda0 = 0 \<or> e = 0 then Inl ZeroDivisionError
      else
        let k0 = 2 * pi / lambda0;
            E0 = a0 * m_e * c ^ 2 * k0 / e
        in Inr \<lparr>propag_direction = 1, gpu_capable = False,
                 las_u = u, las_kz = kz, las_r = r, time_offset = t_off,
                 E0x = E0 * cos theta_pol, E0y = E0 * sin theta_pol\<rparr>)"

text \<open>
  \<^verbatim>\<open>E_field(self, x, y, z, t)\<close> for scalar \<open>x\<close>, \<open>y\<close>, \<open>z\<close>, \<open>t\<close>. The method gets the object
  and could assign to its fields; the model returns the object as the call leaves it, next
  to the result. The interpolant returns an array (of no axis when \<open>u\<close> has two).
\<close>

definition E_field ::
  "(real list \<Rightarrow> real ndarray \<Rightarrow> error + (real \<Rightarrow> real ndarray)) \<Rightarrow> real \<Rightarrow> AxipropLaser
     \<Rightarrow> real \<Rightarrow> real \<Rightarrow> real \<Rightarrow> real \<Rightarrow> AxipropLaser \<times> (error + real ndarray \<times> real ndarray)" where
  "E_field spline c self x y z t =
     (self,
      case get_E_r c (t + time_offset self) (las_u self) (las_kz self) of
        Inl e \<Rightarrow> Inl e
      | Inr u_r \<Rightarrow>
          let r_p = sqrt (x * x + y * y) in
          (case interp1d spline (las_r self) u_r 0 of
             Inl e \<Rightarrow> Inl e
           | Inr fu \<Rightarrow>
               let profile = fu r_p;
                   Ex = profile\<lparr>data := map (\<lambda>v. E0x self * v) (data profile)\<rparr>;
                   Ey = profile\<lparr>data := map (\<lambda>v. E0y self * v) (data profile)\<rparr>
               in Inr (Ex, Ey)))"

section \<open>The amplitude generator\<close>

text \<open>
  \<^verbatim>\<open>(np.abs(a0)**2).sum(0).max()\<close>: the squared moduli are summed along axis 0 (an array
  without axes has none), and the greatest of the col_sums is taken (none when there is no sum).
\<close>

definition sum0_max :: "complex ndarray \<Rightarrow> error + real" where
  "sum0_max a =
     (case shape a of
        [] \<Rightarrow> Inl ValueError
      | n # sp \<Rightarrow>
          let P = prod_list sp;
              col_sums = map (\<lambda>j. sum_list (map (\<lambda>i. (cmod (data a ! (i * P + j))) ^ 2) [0..<n]))
                         [0..<P]
          in if col_sums = [] then Inl ValueError else Inr (Max (set col_sums)))"

text \<open>
  The two grids \<open>fu\<close> is called on, both of shape \<open>[len(kz), len(r)]\<close>:
  \<^verbatim>\<open>(kz * np.ones((*kz.shape, *r.shape)).T).T\<close> repeats \<open>kz[i]\<close> along row \<open>i\<close>, and
  \<^verbatim>\<open>r[None,:] * np.ones((*kz.shape, *r.shape))\<close> repeats \<open>r\<close> in every row.
\<close>

definition kz_grid :: "real list \<Rightarrow> real list \<Rightarrow> real ndarray" where
  "kz_grid kz r =
     \<lparr>shape = [length kz, length r],
      data = map (\<lambda>q. kz ! (q div length r)) [0..<length kz * length r]\<rparr>"

definition r_grid :: "real list \<Rightarrow> real list \<Rightarrow> real ndarray" where
  "r_grid kz r =
     \<lparr>shape = [length kz, length r],
      data = map (\<lambda>q. r ! (q mod length r)) [0..<length kz * length r]\<rparr>"

text \<open>
  \<^verbatim>\<open>laser_from_fu(fu, kz, r, normalize)\<close>: \<open>fu\<close> gets the two grids and returns an array.
  Dividing a non-empty array by zero gives no numbers.
\<close>

definition laser_from_fu ::
  "(real ndarray \<Rightarrow> real ndarray \<Rightarrow> complex ndarray) \<Rightarrow> real list \<Rightarrow> real list \<Rightarrow> bool
     \<Rightarrow> error + complex ndarray" where
  "laser_from_fu fu kz r norm_flag =
     (let a0 = fu (kz_grid kz r) (r_grid kz r)
      in if norm_flag then
           (case sum0_max a0 of
              Inl e \<Rightarrow> Inl e
            | Inr m \<Rightarrow>
                if data a0 \<noteq> [] \<and> m = 0 then Inl NotANumber
                else Inr (a0\<lparr>data := map (\<lambda>z. z / complex_of_real (sqrt m)) (data a0)\<rparr>))
         else Inr a0)"

section \<open>The binary writers\<close>

type_synonym byte = "8 word"

text \<open>\<^verbatim>\<open>n.to_bytes(len, byteorder='little', signed=False)\<close>\<close>

definition to_bytes :: "nat \<Rightarrow> nat \<Rightarrow> error + byte list" where
  "to_bytes n len =
     (if n < 256 ^ len then Inr (map (\<lambda>i. of_nat (n div 256 ^ i)) [0..<len])
      else Inl OverflowError)"

text \<open>\<^verbatim>\<open>xs[i]\<close> of a one-dimensional array, and \<^verbatim>\<open>E.tobytes()\<close> of a contiguous one.\<close>

definition item :: "'a list \<Rightarrow> int \<Rightarrow> error + 'a" where
  "item xs i = (case norm_index i (length xs) of Inl e \<Rightarrow> Inl e | Inr j \<Rightarrow> Inr (xs ! j))"

definition tobytes :: "('a \<Rightarrow> byte list) \<Rightarrow> 'a list \<Rightarrow> byte list" where
  "tobytes enc xs = concat (map enc xs)"

text \<open>
  \<^verbatim>\<open>write_file_unf(fname, x, y, t, E)\<close>. \<^verbatim>\<open>open(fname, 'wb')\<close> starts from an empty file
  and each \<^verbatim>\<open>file.write\<close> appends; the outcome is the content of the file, also when an
  exception ends the call. \<open>enc\<close> and \<open>encE\<close> are the host's encodings of an element of an
  axis and of the field.
\<close>

definition write_file_unf ::
  "(real \<Rightarrow> byte list) \<Rightarrow> ('e \<Rightarrow> byte list) \<Rightarrow> real list \<Rightarrow> real list \<Rightarrow> real list \<Rightarrow> 'e ndarray
     \<Rightarrow> byte list outcome" where
  "write_file_unf enc encE x y t E =
     (let file = [] in
      attempt file (to_bytes 1 1) (\<lambda>b. let file = file @ b in
      attempt file (to_bytes (length t) 4) (\<lambda>b. let file = file @ b in
      attempt file (to_bytes (length x) 4) (\<lambda>b. let file = file @ b in
      attempt file (to_bytes (length y) 4) (\<lambda>b. let file = file @ b in
      attempt file (item t 0) (\<lambda>v. let file = file @ enc v in
      attempt file (item t (- 1)) (\<lambda>v. let file = file @ enc v in
      attempt file (item x 0) (\<lambda>v. let file = file @ enc v in
      attempt file (item x (- 1)) (\<lambda>v. let file = file @ enc v in
      if length y = 1 then
        attempt file (item y 0) (\<lambda>v. let file = file @ enc v in
        Inr (file @ tobytes encE (data E)))
      else
        attempt file (item y 0) (\<lambda>v. let file = file @ enc v in
        attempt file (item y (- 1)) (\<lambda>v. let file = file @ enc v in
        Inr (file @ tobytes encE (data E)))))))))))))"

text \<open>\<^verbatim>\<open>write_file(fname, x, y, t, E)\<close>\<close>

definition write_file ::
  "(real \<Rightarrow> byte list) \<Rightarrow> ('e \<Rightarrow> byte list) \<Rightarrow> real list \<Rightarrow> real list \<Rightarrow> real list \<Rightarrow> 'e ndarray
     \<Rightarrow> byte list outcome" where
  "write_file enc encE x y t E =
     (let file = [] in
      attempt file (to_bytes 0 1) (\<lambda>b. let file = file @ b in
      attempt file (to_bytes (length t) 4) (\<lambda>b. let file = file @ b in
      attempt file (to_bytes (length x) 4) (\<lambda>b. let file = file @ b in
      attempt file (to_bytes (length y) 4) (\<lambda>b. let file = file @ b in
      Inr (file @ tobytes enc t @ tobytes enc x @ tobytes enc y
                @ tobytes encE (data E)))))))"

section \<open>What the specification speaks of\<close>

text \<open>
  The synthesis of the specification at one time \<open>tt\<close>: the sum, over the frequency modes, of
  the real part of the mode's amplitude times its phase factor \<open>exp(i kz c tt)\<close>.
\<close>

definition synthesis :: "real \<Rightarrow> real list \<Rightarrow> real \<Rightarrow> (nat \<Rightarrow> complex) \<Rightarrow> real" where
  "synthesis c kz tt f =
     (\<Sum>k<length kz. Re (f k * exp (\<i> * complex_of_real (kz ! k) * complex_of_real c
                                      * complex_of_real tt)))"

text \<open>The element \<^verbatim>\<open>u[k, j]\<close> of a two-dimensional array, \<^verbatim>\<open>u[k, ix, iy]\<close> of a three-dimensional one.\<close>

definition at2 :: "'a ndarray \<Rightarrow> nat \<Rightarrow> nat \<Rightarrow> 'a" where
  "at2 a k j = data a ! (k * (shape a ! 1) + j)"

definition at3 :: "'a ndarray \<Rightarrow> nat \<Rightarrow> nat \<Rightarrow> nat \<Rightarrow> 'a" where
  "at3 a k ix iy = data a ! ((k * (shape a ! 1) + ix) * (shape a ! 2) + iy)"

text \<open>
  A loop that writes an array front to back: \<open>filled a0 new m a\<close> says that \<open>a\<close> is \<open>a0\<close> with
  its first \<open>m\<close> elements replaced by the values \<open>new\<close>.
\<close>

definition filled :: "'a ndarray \<Rightarrow> (nat \<Rightarrow> 'a) \<Rightarrow> nat \<Rightarrow> 'a ndarray \<Rightarrow> bool" where
  "filled a0 new m a =
     (shape a = shape a0 \<and> length (data a) = length (data a0) \<and>
      (\<forall>q<length (data a0). data a ! q = (if q < m then new q else data a0 ! q)))"

text \<open>
  The mean over the frequency modes that the specification gives as the output of the
  single-time evaluator: the synthesis at each spatial point divided by the number of modes,
  the length of the leading axis of \<open>u\<close>.
\<close>

definition mode_mean :: "real \<Rightarrow> real \<Rightarrow> complex ndarray \<Rightarrow> real list \<Rightarrow> real ndarray" where
  "mode_mean c tt u kz =
     (let P = prod_list (tl (shape u))
      in \<lparr>shape = tl (shape u),
          data = map (\<lambda>j. synthesis c kz tt (\<lambda>k. data u ! (k * P + j)) / real (hd (shape u)))
                     [0..<P]\<rparr>)"

text \<open>
  The energy that the specification normalises: for a two-dimensional array, the greatest,
  over the frequency axis (the rows), of the sum over the spatial axis (along the row) of
  the squared moduli.
\<close>

definition freq_max_energy :: "complex ndarray \<Rightarrow> real" where
  "freq_max_energy a =
     Max (set (map (\<lambda>i. sum_list (map (\<lambda>j. (cmod (at2 a i j)) ^ 2) [0..<shape a ! 1]))
                   [0..<shape a ! 0]))"

text \<open>Two amplitude functions: one everywhere, and zero everywhere.\<close>

definition unit_amplitude :: "real ndarray \<Rightarrow> real ndarray \<Rightarrow> complex ndarray" where
  "unit_amplitude kzs rs = \<lparr>shape = shape kzs, data = map (\<lambda>_. 1) (data kzs)\<rparr>"

definition zero_amplitude :: "real ndarray \<Rightarrow> real ndarray \<Rightarrow> complex ndarray" where
  "zero_amplitude kzs rs = \<lparr>shape = shape kzs, data = map (\<lambda>_. 0) (data kzs)\<rparr>"

text \<open>
  The line of the \<open>y\<close> axis, of length \<open>Ny\<close>, that Python's index \<^verbatim>\<open>Ny//2-1\<close> selects: an
  index of \<open>-1\<close> counts from the end.
\<close>

definition mid_line :: "nat \<Rightarrow> nat" where
  "mid_line Ny = (if Ny div 2 = 0 then Ny - 1 else Ny div 2 - 1)"

text \<open>
  What the 1-D accumulate kernel adds for the time of index \<open>it\<close>: the synthesis at each of
  the first \<open>L\<close> radial indices, summed.
\<close>

definition accumulated :: "real \<Rightarrow> complex ndarray \<Rightarrow> real list \<Rightarrow> real list \<Rightarrow> nat \<Rightarrow> nat \<Rightarrow> real" where
  "accumulated c u t kz L it = (\<Sum>ir<L. synthesis c kz (t ! it) (\<lambda>k. at2 u k ir))"

text \<open>The array \<open>u\<close> with every element multiplied by the real constant \<open>k\<close>.\<close>

definition scaled :: "real \<Rightarrow> complex ndarray \<Rightarrow> complex ndarray" where
  "scaled k u = u\<lparr>data := map (\<lambda>z. complex_of_real k * z) (data u)\<rparr>"

text \<open>
  The unsigned integer that a list of bytes holds, least significant byte first.
\<close>

fun from_le :: "byte list \<Rightarrow> nat" where
  "from_le [] = 0"
| "from_le (b # bs) = unat b + 256 * from_le bs"

text \<open>
  Stand-ins for what the program takes from its host, for concrete runs: an encoding of a
  number in one byte (its integer part), a laser profile on four radial points and one on
  three, and a spline that accepts every input and is 42 everywhere.
\<close>

definition byte_enc :: "real \<Rightarrow> byte list" where
  "byte_enc v = [of_int \<lfloor>v\<rfloor>]"

definition demo_laser :: AxipropLaser where
  "demo_laser =
     \<lparr>propag_direction = 1, gpu_capable = False,
      las_u = \<lparr>shape = [1, 4], data = [1, 1, 1, 1]\<rparr>, las_kz = [0], las_r = [0, 1, 2, 3],
      time_offset = 0, E0x = 2, E0y = 3\<rparr>"

definition short_laser :: AxipropLaser where
  "short_laser =
     \<lparr>propag_direction = 1, gpu_capable = False,
      las_u = \<lparr>shape = [1, 3], data = [1, 1, 1]\<rparr>, las_kz = [0], las_r = [0, 1, 2],
      time_offset = 0, E0x = 2, E0y = 3\<rparr>"

definition flat_spline :: "real list \<Rightarrow> real ndarray \<Rightarrow> error + (real \<Rightarrow> real ndarray)" where
  "flat_spline xs ys =
     Inr (\<lambda>q. \<lparr>shape = butlast (shape ys), data = replicate (prod_list (butlast (shape ys))) 42\<rparr>)"

section \<open>Loops and array writes\<close>

lemma upt_small:
  "[0..<4] = [0, 1, 2, 3]" "[0..<3] = [0, 1, 2]" "[0..<2] = [0, 1]" "[0..<1] = [0]"
  by (simp_all add: upt_rec)

lemma for_range_append:
  "for_range (xs @ ys) body s =
     (case for_range xs body s of Inl e \<Rightarrow> Inl e | Inr s' \<Rightarrow> for_range ys body s')"
  by (induction xs arbitrary: s) (auto split: sum.splits)

lemma for_range_rule:
  assumes "P 0 s"
    and "\<And>i a. i < n \<Longrightarrow> P i a \<Longrightarrow> \<exists>a'. body i a = Inr a' \<and> P (Suc i) a'"
  shows "\<exists>s'. for_range [0..<n] body s = Inr s' \<and> P n s'"
  using assms
proof (induction n)
  case 0
  then show ?case by simp
next
  case (Suc n)
  then obtain s1 where s1: "for_range [0..<n] body s = Inr s1" "P n s1"
    by (metis less_Suc_eq)
  from Suc.prems(2)[of n s1] s1 obtain s2 where "body n s1 = Inr s2" "P (Suc n) s2"
    by auto
  with s1 show ?case
    by (simp add: for_range_append)
qed

lemma synthesis_cong:
  "(\<And>k. k < length kz \<Longrightarrow> f k = g k) \<Longrightarrow> synthesis c kz tt f = synthesis c kz tt g"
  unfolding synthesis_def by (rule sum.cong) simp_all

lemma synth_closed:
  assumes "length col = length kz"
  shows "synth col (FFT_factor c kz tt) = Inr (synthesis c kz tt ((!) col))"
proof -
  let ?F = "FFT_factor c kz tt"
  have len: "length ?F = length kz" by (simp add: FFT_factor_def)
  have "sum_list (map Re (map2 (*) col ?F)) = (\<Sum>k<length kz. Re (col ! k * ?F ! k))"
    using assms len by (simp add: sum_list_sum_nth atLeast0LessThan)
  also have "\<dots> = synthesis c kz tt ((!) col)"
    unfolding synthesis_def by (rule sum.cong) (simp_all add: FFT_factor_def)
  finally show ?thesis using assms len by (simp add: synth_def bmul_def)
qed

lemma filled_start: "filled a0 new 0 a0"
  by (simp add: filled_def)

lemma filled_all:
  assumes "filled a0 new m a" "length (data a0) \<le> m"
  shows "a = \<lparr>shape = shape a0, data = map new [0..<length (data a0)]\<rparr>"
proof -
  have "data a = map new [0..<length (data a0)]"
    using assms by (intro nth_equalityI) (auto simp: filled_def)
  moreover have "shape a = shape a0" using assms by (simp add: filled_def)
  ultimately show ?thesis by simp
qed

lemma setitem_filled:
  assumes "filled a0 new b a" "offset idx (shape a0) 0 = Inr b"
    "length idx = length (shape a0)" "b < length (data a0)" "v = new b"
  shows "\<exists>a'. setitem a idx v = Inr a' \<and> filled a0 new (Suc b) a'"
  using assms by (auto simp: setitem_def filled_def less_Suc_eq_le dest: antisym)

lemma flat_index_less:
  assumes "i < M" "j < (N::nat)"
  shows "i * N + j < M * N"
proof -
  have "i * N + j < Suc i * N" using assms by simp
  also have "\<dots> \<le> M * N" using assms by (intro mult_le_mono1) simp
  finally show ?thesis .
qed

text \<open>Two nested loops that write a two-dimensional array row by row.\<close>

lemma fill2_loops:
  assumes a0: "shape a0 = [M, N]" "length (data a0) = M * N" "n \<le> M"
    and leaf: "\<And>it j a. it < n \<Longrightarrow> j < N \<Longrightarrow> filled a0 new (it * N + j) a \<Longrightarrow>
                 \<exists>a'. body it j a = Inr a' \<and> filled a0 new (Suc (it * N + j)) a'"
  shows "\<exists>a'. for_range [0..<n] (\<lambda>it a. for_range [0..<N] (body it) a) a0 = Inr a'
              \<and> filled a0 new (n * N) a'"
proof (rule for_range_rule[where P = "\<lambda>it. filled a0 new (it * N)"])
  show "filled a0 new (0 * N) a0"
    by (simp add: filled_start)
next
  fix it a
  assume it: "it < n" and f: "filled a0 new (it * N) a"
  have "\<exists>a'. for_range [0..<N] (body it) a = Inr a' \<and> filled a0 new (it * N + N) a'"
  proof (rule for_range_rule[where P = "\<lambda>j. filled a0 new (it * N + j)"])
    show "filled a0 new (it * N + 0) a" using f by simp
  next
    fix j b
    assume "j < N" "filled a0 new (it * N + j) b"
    then show "\<exists>a'. body it j b = Inr a' \<and> filled a0 new (it * N + Suc j) a'"
      using leaf[of it j b] it by simp
  qed
  then show "\<exists>a'. for_range [0..<N] (body it) a = Inr a' \<and> filled a0 new (Suc it * N) a'"
    by (simp add: add.commute)
qed

section \<open>The radial-resolved kernel in closed form\<close>

lemma column2_ok:
  "shape u = [Nkz, Nr] \<Longrightarrow> ir < Nr \<Longrightarrow>
   column2 u ir = Inr (map (\<lambda>k. data u ! (k * Nr + ir)) [0..<Nkz])"
  by (simp add: column2_def)

lemma radial_leaf:
  assumes u: "shape u = [Nkz, Nr]" "length kz = Nkz"
    and a0: "shape a0 = [M, Nr]" "length (data a0) = M * Nr"
    and i: "it < M" "ir < Nr"
    and f: "filled a0 (\<lambda>q. synthesis c kz (t ! (q div Nr)) (\<lambda>k. at2 u k (q mod Nr)))
              (it * Nr + ir) a"
  shows "\<exists>a'. attempt a (column2 u ir) (\<lambda>col.
               attempt a (synth col (FFT_factor c kz (t ! it))) (\<lambda>v.
               attempt a (setitem a [it, ir] v) Inr)) = Inr a'
           \<and> filled a0 (\<lambda>q. synthesis c kz (t ! (q div Nr)) (\<lambda>k. at2 u k (q mod Nr)))
               (Suc (it * Nr + ir)) a'"
proof -
  let ?new = "\<lambda>q. synthesis c kz (t ! (q div Nr)) (\<lambda>k. at2 u k (q mod Nr))"
  let ?col = "map (\<lambda>k. data u ! (k * Nr + ir)) [0..<Nkz]"
  let ?v = "synthesis c kz (t ! it) ((!) ?col)"
  have c: "column2 u ir = Inr ?col" using u i by (simp add: column2_ok)
  have s: "synth ?col (FFT_factor c kz (t ! it)) = Inr ?v"
    using u by (intro synth_closed) simp
  have dm: "(it * Nr + ir) div Nr = it" "(it * Nr + ir) mod Nr = ir"
    using i by simp_all
  have v: "?v = ?new (it * Nr + ir)"
    unfolding dm using u by (intro synthesis_cong) (simp add: at2_def)
  have lt: "it * Nr + ir < M * Nr"
    using i by (rule flat_index_less)
  have "\<exists>a'. setitem a [it, ir] ?v = Inr a' \<and> filled a0 ?new (Suc (it * Nr + ir)) a'"
    using f a0 i lt v by (intro setitem_filled) simp_all
  then show ?thesis using c s by (auto simp: attempt_def)
qed

lemma radial_closed:
  assumes u: "shape u = [Nkz, Nr]" "length kz = Nkz"
    and ut: "shape u_t = [length t, Nr]" "wf_array u_t"
  shows "get_temporal_radial c u u_t t kz =
           Inr \<lparr>shape = [length t, Nr],
                data = map (\<lambda>q. synthesis c kz (t ! (q div Nr)) (\<lambda>k. at2 u k (q mod Nr)))
                           [0..<length t * Nr]\<rparr>"
proof -
  let ?new = "\<lambda>q. synthesis c kz (t ! (q div Nr)) (\<lambda>k. at2 u k (q mod Nr))"
  let ?body = "\<lambda>it ir a. attempt a (column2 u ir) (\<lambda>col.
               attempt a (synth col (FFT_factor c kz (t ! it))) (\<lambda>v.
               attempt a (setitem a [it, ir] v) Inr))"
  have len: "length (data u_t) = length t * Nr"
    using ut by (simp add: wf_array_def)
  have "\<exists>a'. for_range [0..<length t] (\<lambda>it a. for_range [0..<Nr] (?body it) a) u_t = Inr a'
            \<and> filled u_t ?new (length t * Nr) a'"
    using ut(1) len order_refl
  proof (rule fill2_loops)
    fix it j a
    assume "it < length t" "j < Nr" "filled u_t ?new (it * Nr + j) a"
    then show "\<exists>a'. ?body it j a = Inr a' \<and> filled u_t ?new (Suc (it * Nr + j)) a'"
      using radial_leaf[OF u ut(1) len] by blast
  qed
  then obtain a' where a':
    "for_range [0..<length t] (\<lambda>it a. for_range [0..<Nr] (?body it) a) u_t = Inr a'"
    "filled u_t ?new (length t * Nr) a'"
    by blast
  have "a' = \<lparr>shape = shape u_t, data = map ?new [0..<length (data u_t)]\<rparr>"
    using a'(2) len by (intro filled_all[where m = "length t * Nr"]) simp_all
  then show ?thesis
    using a'(1) u ut len by (simp add: get_temporal_radial_def Let_def)
qed

section \<open>Scenario 1 of the 1-D accumulate kernel\<close>

text \<open>
  C3 (amended). With \<open>u\<close> the \<open>[3,4]\<close> array of ones, \<open>kz = [0, pi, 2 pi]\<close>, \<open>c = 1\<close>,
  \<open>t = [0]\<close> and \<open>Nr_loc = 4\<close>, every phase factor is \<open>exp 0 = 1\<close>, so the kernel adds
  \<open>4 * (1 + 1 + 1) = 12\<close> to the existing value: to \<open>u_t[0]\<close> alone when \<open>u_t\<close> has the shape
  \<open>[4]\<close>, and to each of the four entries of the row \<open>u_t[0]\<close> when it has the shape \<open>[1,4]\<close>.
\<close>

theorem get_temporal_1d_scenario1:
  "get_temporal_1d 1 \<lparr>shape = [3, 4], data = replicate 12 1\<rparr>
       \<lparr>shape = [4], data = [a0, a1, a2, a3]\<rparr> [0] [0, pi, 2 * pi] 4
     = Inr \<lparr>shape = [4], data = [a0 + 12, a1, a2, a3]\<rparr>
   \<and> get_temporal_1d 1 \<lparr>shape = [3, 4], data = replicate 12 1\<rparr>
       \<lparr>shape = [1, 4], data = [a0, a1, a2, a3]\<rparr> [0] [0, pi, 2 * pi] 4
     = Inr \<lparr>shape = [1, 4], data = [a0 + 12, a1 + 12, a2 + 12, a3 + 12]\<rparr>"
  by (simp add: get_temporal_1d_def FFT_factor_def upt_small attempt_def iadd_item_def
      column2_def synth_def bmul_def eval_nat_numeral)

text \<open>
  C3 as stated fails: with the \<open>u_t\<close> of one slot that \<open>t = [0]\<close> asks for, the kernel's
  assertion compares that one with \<open>Nr = 4\<close> and fails; with a \<open>u_t\<close> of four zeros the
  kernel leaves 12 in \<open>u_t[0]\<close>, not 4.
\<close>

theorem get_temporal_1d_scenario1_counterexample:
  "get_temporal_1d 1 \<lparr>shape = [3, 4], data = replicate 12 1\<rparr>
       \<lparr>shape = [1], data = [0]\<rparr> [0] [0, pi, 2 * pi] 4
     = Inl (AssertionError, \<lparr>shape = [1], data = [0]\<rparr>)
   \<and> get_temporal_1d 1 \<lparr>shape = [3, 4], data = replicate 12 1\<rparr>
       \<lparr>shape = [4], data = [0, 0, 0, 0]\<rparr> [0] [0, pi, 2 * pi] 4
     = Inr \<lparr>shape = [4], data = [12, 0, 0, 0]\<rparr>
   \<and> get_temporal_1d 1 \<lparr>shape = [3, 4], data = replicate 12 1\<rparr>
       \<lparr>shape = [4], data = [0, 0, 0, 0]\<rparr> [0] [0, pi, 2 * pi] 4
     \<noteq> Inr \<lparr>shape = [4], data = [4, 0, 0, 0]\<rparr>"
  by (simp add: get_temporal_1d_def FFT_factor_def upt_small attempt_def iadd_item_def
      column2_def synth_def bmul_def eval_nat_numeral)

section \<open>The single-time evaluator\<close>

lemma sum_list_upt: "sum_list (map f [0..<n]) = (\<Sum>k<n. f k)"
  by (simp add: sum_list_sum_nth atLeast0LessThan)

lemma get_E_r_closed:
  assumes u: "shape u = Nkz # sp" and kz: "length kz = Nkz" and pos: "0 < Nkz"
  shows "get_E_r c tt u kz =
           Inr \<lparr>shape = sp,
                data = map (\<lambda>j. synthesis c kz tt (\<lambda>k. data u ! (k * prod_list sp + j))
                                 / real (Nkz * prod_list sp)) [0..<prod_list sp]\<rparr>"
proof -
  let ?P = "prod_list sp"
  let ?ph = "FFT_factor c kz tt"
  let ?FFT = "map (\<lambda>q. ?ph ! (q div ?P)) [0..<Nkz * ?P]"
  let ?pr = "map (\<lambda>q. data u ! q * ?FFT ! q) [0..<Nkz * ?P]"
  have elem: "Re (?pr ! (b * ?P + j)) =
     Re (data u ! (b * ?P + j)
          * exp (\<i> * complex_of_real (kz ! b) * complex_of_real c * complex_of_real tt))"
    if "b < Nkz" "j < ?P" for b j
  proof -
    have lt: "b * ?P + j < Nkz * ?P" using that by (rule flat_index_less)
    have dm: "(b * ?P + j) div ?P = b" "(b * ?P + j) mod ?P = j" using that by simp_all
    show ?thesis using lt dm that kz by (simp add: FFT_factor_def)
  qed
  have col: "sum_list (map (\<lambda>b. Re (?pr ! (b * ?P + j))) [0..<Nkz]) =
      synthesis c kz tt (\<lambda>k. data u ! (k * ?P + j))" if "j < ?P" for j
    unfolding sum_list_upt synthesis_def kz using that by (intro sum.cong refl elem) auto
  have "map (\<lambda>j. sum_list (map (\<lambda>b. Re (?pr ! (b * ?P + j))) [0..<Nkz])) [0..<?P]
      = map (\<lambda>j. synthesis c kz tt (\<lambda>k. data u ! (k * ?P + j))) [0..<?P]"
  proof (intro map_cong refl)
    fix j assume "j \<in> set [0..<?P]"
    then have "j < ?P" by simp
    then show "sum_list (map (\<lambda>b. Re (?pr ! (b * ?P + j))) [0..<Nkz]) =
      synthesis c kz tt (\<lambda>k. data u ! (k * ?P + j))" by (rule col)
  qed
  then show ?thesis
    using u kz pos by (auto simp add: get_E_r_def Let_def o_def)
qed

text \<open>
  C1 (amended). For a well-formed \<open>u\<close> of shape \<open>Nkz # sp\<close> with \<open>Nkz > 0\<close> modes and a
  \<open>kz\<close> of length \<open>Nkz\<close>, \<open>get_E_r\<close> returns, at each spatial point, the sum over the modes of
  \<open>Re (u * exp(i kz c t))\<close> divided by the number of all elements of \<open>u\<close>, that is by \<open>Nkz\<close>
  times the number of spatial points; for a two-dimensional \<open>u\<close> this is the row of the
  radial-resolved kernel for the same time divided by \<open>Nkz * Nr\<close>.
\<close>

theorem get_E_r_divides_by_size:
  assumes "shape u = Nkz # sp" "wf_array u" "length kz = Nkz" "0 < Nkz"
  shows "get_E_r c tt u kz =
           Inr \<lparr>shape = sp,
                data = map (\<lambda>j. synthesis c kz tt (\<lambda>k. data u ! (k * prod_list sp + j))
                                 / real (Nkz * prod_list sp)) [0..<prod_list sp]\<rparr>
         \<and> (sp = [Nr] \<and> shape u_t = [1, Nr] \<and> wf_array u_t \<longrightarrow>
             (\<exists>row. get_temporal_radial c u u_t [tt] kz = Inr \<lparr>shape = [1, Nr], data = row\<rparr>
                  \<and> get_E_r c tt u kz
                      = Inr \<lparr>shape = [Nr], data = map (\<lambda>v. v / real (Nkz * Nr)) row\<rparr>))"
proof (intro conjI impI)
  show "get_E_r c tt u kz =
           Inr \<lparr>shape = sp,
                data = map (\<lambda>j. synthesis c kz tt (\<lambda>k. data u ! (k * prod_list sp + j))
                                 / real (Nkz * prod_list sp)) [0..<prod_list sp]\<rparr>"
    using assms(1,3,4) by (rule get_E_r_closed)
next
  assume a: "sp = [Nr] \<and> shape u_t = [1, Nr] \<and> wf_array u_t"
  have u2: "shape u = [Nkz, Nr]" using assms(1) a by simp
  have r: "get_temporal_radial c u u_t [tt] kz =
      Inr \<lparr>shape = [1, Nr],
           data = map (\<lambda>q. synthesis c kz tt (\<lambda>k. data u ! (k * Nr + q))) [0..<Nr]\<rparr>"
    using radial_closed[OF u2 assms(3), of u_t "[tt]" c] a u2 by (simp add: at2_def)
  have e: "get_E_r c tt u kz =
      Inr \<lparr>shape = [Nr],
           data = map (\<lambda>j. synthesis c kz tt (\<lambda>k. data u ! (k * Nr + j)) / real (Nkz * Nr))
                      [0..<Nr]\<rparr>"
    using get_E_r_closed[OF u2 assms(3,4), of c tt] by simp
  show "\<exists>row. get_temporal_radial c u u_t [tt] kz = Inr \<lparr>shape = [1, Nr], data = row\<rparr>
            \<and> get_E_r c tt u kz
                = Inr \<lparr>shape = [Nr], data = map (\<lambda>v. v / real (Nkz * Nr)) row\<rparr>"
    using r e by (simp add: o_def)
qed

theorem get_E_r_divides_by_size_witness:
  "get_E_r speed_of_light 0 \<lparr>shape = [1, 2], data = [2, 2]\<rparr> [0]
     = Inr \<lparr>shape = [2], data = [1, 1]\<rparr>
   \<and> (\<exists>row. get_temporal_radial speed_of_light \<lparr>shape = [1, 2], data = [2, 2]\<rparr>
               \<lparr>shape = [1, 2], data = [0, 0]\<rparr> [0] [0] = Inr \<lparr>shape = [1, 2], data = row\<rparr>
          \<and> get_E_r speed_of_light 0 \<lparr>shape = [1, 2], data = [2, 2]\<rparr> [0]
              = Inr \<lparr>shape = [2], data = map (\<lambda>v. v / real ((1::nat) * 2)) row\<rparr>)"
proof -
  have h: "shape \<lparr>shape = [1, 2], data = [2, 2 :: complex]\<rparr> = 1 # [2]"
    "wf_array \<lparr>shape = [1, 2], data = [2, 2 :: complex]\<rparr>"
    "length [0 :: real] = 1" "0 < (1 :: nat)"
    by (simp_all add: wf_array_def)
  have g: "[2] = [2 :: nat] \<and> shape \<lparr>shape = [1, 2], data = [0, 0 :: real]\<rparr> = [1, 2]
      \<and> wf_array \<lparr>shape = [1, 2], data = [0, 0 :: real]\<rparr>"
    by (simp add: wf_array_def)
  note t = get_E_r_divides_by_size[OF h, of speed_of_light 0 2
      "\<lparr>shape = [1, 2], data = [0, 0]\<rparr>"]
  from t have a: "get_E_r speed_of_light 0 \<lparr>shape = [1, 2], data = [2, 2]\<rparr> [0]
     = Inr \<lparr>shape = [2], data = [1, 1]\<rparr>"
    by (simp add: synthesis_def upt_small)
  from t g have b: "\<exists>row. get_temporal_radial speed_of_light \<lparr>shape = [1, 2], data = [2, 2]\<rparr>
               \<lparr>shape = [1, 2], data = [0, 0]\<rparr> [0] [0] = Inr \<lparr>shape = [1, 2], data = row\<rparr>
          \<and> get_E_r speed_of_light 0 \<lparr>shape = [1, 2], data = [2, 2]\<rparr> [0]
              = Inr \<lparr>shape = [2], data = map (\<lambda>v. v / real ((1::nat) * 2)) row\<rparr>"
    by blast
  from a b show ?thesis by blast
qed

text \<open>
  C1 as stated fails: one mode and two radial points, \<open>u\<close> the single row \<open>[2, 2]\<close>,
  \<open>kz = [0]\<close>, \<open>t = 0\<close>.
  The row of the radial-resolved kernel is \<open>[2, 2]\<close> and so is the mean over the one mode;
  \<open>get_E_r\<close> returns \<open>[1, 1]\<close>, the row divided by \<open>Nkz * Nr = 2\<close>.
\<close>

theorem get_E_r_mean_counterexample:
  "get_temporal_radial speed_of_light \<lparr>shape = [1, 2], data = [2, 2]\<rparr>
       \<lparr>shape = [1, 2], data = [0, 0]\<rparr> [0] [0] = Inr \<lparr>shape = [1, 2], data = [2, 2]\<rparr>
   \<and> mode_mean speed_of_light 0 \<lparr>shape = [1, 2], data = [2, 2]\<rparr> [0]
       = \<lparr>shape = [2], data = [2, 2]\<rparr>
   \<and> get_E_r speed_of_light 0 \<lparr>shape = [1, 2], data = [2, 2]\<rparr> [0]
       = Inr \<lparr>shape = [2], data = [1, 1]\<rparr>
   \<and> get_E_r speed_of_light 0 \<lparr>shape = [1, 2], data = [2, 2]\<rparr> [0]
       \<noteq> Inr (mode_mean speed_of_light 0 \<lparr>shape = [1, 2], data = [2, 2]\<rparr> [0])"
  by (simp add: get_E_r_def FFT_factor_def mode_mean_def synthesis_def upt_small
      get_temporal_radial_def attempt_def column2_def synth_def bmul_def setitem_def)

section \<open>The amplitude generator's normalisation\<close>

lemma Max_scaled:
  fixes xs :: "real list"
  assumes "xs \<noteq> []" "0 < m"
  shows "Max (set (map (\<lambda>x. x / m) xs)) = Max (set xs) / m"
proof -
  have "mono (\<lambda>x. x / m)" using assms(2) by (intro monoI) (simp add: divide_right_mono)
  then have "(Max (set xs)) / m = Max ((\<lambda>x. x / m) ` set xs)"
    using assms(1) by (intro mono_Max_commute) simp_all
  then show ?thesis by simp
qed

lemma sum0_max_normalised:
  assumes sh: "shape a = n # sp" and wf: "wf_array a" and P: "0 < prod_list sp"
    and nz: "\<exists>q<length (data a). data a ! q \<noteq> 0"
  shows "\<exists>m. sum0_max a = Inr m \<and> 0 < m
           \<and> sum0_max (a\<lparr>data := map (\<lambda>z. z / complex_of_real (sqrt m)) (data a)\<rparr>) = Inr 1"
proof -
  let ?P = "prod_list sp"
  let ?col = "\<lambda>d j. sum_list (map (\<lambda>i. (cmod (d ! (i * ?P + j))) ^ 2) [0..<n])"
  let ?sums = "map (?col (data a)) [0..<?P]"
  let ?m = "Max (set ?sums)"
  have len: "length (data a) = n * ?P" using sh wf by (simp add: wf_array_def)
  have ne: "?sums \<noteq> []" using P by simp
  have m: "sum0_max a = Inr ?m" using sh ne by (simp add: sum0_max_def Let_def)
  obtain q where q: "q < n * ?P" "data a ! q \<noteq> 0" using nz len by auto
  have qd: "q div ?P < n" using q(1) P by (simp add: less_mult_imp_div_less)
  have qm: "q mod ?P < ?P" using P by simp
  have "0 < (cmod (data a ! q)) ^ 2" using q(2) by simp
  also have "(cmod (data a ! q)) ^ 2 = (cmod (data a ! (q div ?P * ?P + q mod ?P))) ^ 2" by simp
  also have "\<dots> \<le> ?col (data a) (q mod ?P)"
    unfolding sum_list_upt
    by (rule member_le_sum[where i = "q div ?P"
          and f = "\<lambda>i. (cmod (data a ! (i * ?P + q mod ?P)))\<^sup>2"])
       (use qd in simp_all)
  also have "\<dots> \<le> ?m" using qm by (intro Max_ge) auto
  finally have pos: "0 < ?m" .
  let ?g = "\<lambda>z. z / complex_of_real (sqrt ?m)"
  have colg: "?col (map ?g (data a)) j = ?col (data a) j / ?m" if "j < ?P" for j
  proof -
    have "(cmod (map ?g (data a) ! (i * ?P + j))) ^ 2 = (cmod (data a ! (i * ?P + j))) ^ 2 / ?m"
      if "i < n" for i
    proof -
      have "i * ?P + j < n * ?P" using that \<open>j < ?P\<close> by (rule flat_index_less)
      then show ?thesis using pos len by (simp add: norm_divide power_divide)
    qed
    then have "?col (map ?g (data a)) j = (\<Sum>i<n. (cmod (data a ! (i * ?P + j))) ^ 2 / ?m)"
      unfolding sum_list_upt by (intro sum.cong) simp_all
    also have "\<dots> = ?col (data a) j / ?m"
      unfolding sum_list_upt by (simp add: sum_divide_distrib)
    finally show ?thesis .
  qed
  have "map (?col (map ?g (data a))) [0..<?P] = map (\<lambda>j. ?col (data a) j / ?m) [0..<?P]"
    by (intro map_cong refl colg) simp
  also have "\<dots> = map (\<lambda>x. x / ?m) ?sums"
    by (simp only: map_map o_def)
  finally have "map (?col (map ?g (data a))) [0..<?P] = map (\<lambda>x. x / ?m) ?sums" .
  moreover have "Max (set (map (\<lambda>x. x / ?m) ?sums)) = 1"
    using Max_scaled[OF ne pos] pos by simp
  ultimately have "sum0_max (a\<lparr>data := map ?g (data a)\<rparr>) = Inr 1"
    using sh P by (simp add: sum0_max_def Let_def del: map_map)
  then show ?thesis using m pos by blast
qed

text \<open>
  C2 (amended). When the array that \<open>fu\<close> returns on the grids of \<open>kz\<close> and \<open>r\<close> is well
  formed, has a leading (frequency) axis and at least one point on its other axes, and is
  not zero everywhere, \<open>laser_from_fu\<close> with \<open>normalize=True\<close> returns an array of the same
  shape for which the maximum, over the spatial points, of the sum over the frequency axis
  of the squared moduli is one.
\<close>

theorem laser_from_fu_normalised:
  assumes "shape (fu (kz_grid kz r) (r_grid kz r)) = n # sp"
    and "wf_array (fu (kz_grid kz r) (r_grid kz r))"
    and "0 < prod_list sp"
    and "\<exists>q<length (data (fu (kz_grid kz r) (r_grid kz r))).
            data (fu (kz_grid kz r) (r_grid kz r)) ! q \<noteq> 0"
  shows "\<exists>a. laser_from_fu fu kz r True = Inr a \<and> shape a = n # sp \<and> sum0_max a = Inr 1"
proof -
  let ?a0 = "fu (kz_grid kz r) (r_grid kz r)"
  from sum0_max_normalised[OF assms] obtain m where m: "sum0_max ?a0 = Inr m" "0 < m"
    "sum0_max (?a0\<lparr>data := map (\<lambda>z. z / complex_of_real (sqrt m)) (data ?a0)\<rparr>) = Inr 1"
    by blast
  have "laser_from_fu fu kz r True
      = Inr (?a0\<lparr>data := map (\<lambda>z. z / complex_of_real (sqrt m)) (data ?a0)\<rparr>)"
    using m(1,2) by (simp add: laser_from_fu_def Let_def)
  then show ?thesis using m(3) assms(1) by simp
qed

theorem laser_from_fu_normalised_witness:
  "\<exists>a. laser_from_fu unit_amplitude [1] [1, 2] True = Inr a \<and> shape a = 1 # [2]
      \<and> sum0_max a = Inr 1"
proof -
  have 1: "shape (unit_amplitude (kz_grid [1] [1, 2]) (r_grid [1] [1, 2])) = 1 # [2]"
    by (simp add: unit_amplitude_def kz_grid_def)
  have 2: "wf_array (unit_amplitude (kz_grid [1] [1, 2]) (r_grid [1] [1, 2]))"
    by (simp add: unit_amplitude_def kz_grid_def wf_array_def)
  have 3: "0 < prod_list [2 :: nat]" by simp
  have "data (unit_amplitude (kz_grid [1] [1, 2]) (r_grid [1] [1, 2])) = [1, 1]"
    by (simp add: unit_amplitude_def kz_grid_def upt_small)
  then have 4: "\<exists>q<length (data (unit_amplitude (kz_grid [1] [1, 2]) (r_grid [1] [1, 2]))).
      data (unit_amplitude (kz_grid [1] [1, 2]) (r_grid [1] [1, 2])) ! q \<noteq> 0"
    by (intro exI[of _ 0]) simp
  show ?thesis
    by (rule laser_from_fu_normalised[of unit_amplitude "[1]" "[1, 2]" 1 "[2]", OF 1 2 3 4])
qed

text \<open>
  C2 as stated fails. One frequency and two radial points, with the amplitude one everywhere:
  the sum over the frequency axis is 1 at each radial point, so the array is returned as it
  is, and its sum over the spatial axis is 2 for its one frequency. With the amplitude zero
  everywhere the division is by zero.
\<close>

theorem laser_from_fu_energy_counterexample:
  "laser_from_fu unit_amplitude [1] [1, 2] True = Inr \<lparr>shape = [1, 2], data = [1, 1]\<rparr>
   \<and> freq_max_energy \<lparr>shape = [1, 2], data = [1, 1]\<rparr> = 2
   \<and> freq_max_energy \<lparr>shape = [1, 2], data = [1, 1]\<rparr> \<noteq> 1
   \<and> laser_from_fu zero_amplitude [1] [1] True = Inl NotANumber"
  by (simp add: laser_from_fu_def unit_amplitude_def zero_amplitude_def kz_grid_def
      r_grid_def sum0_max_def freq_max_energy_def at2_def upt_small)

section \<open>The other kernels in closed form\<close>

lemma fill_loop:
  assumes "filled a0 new base a"
    and "\<And>j b. j < n \<Longrightarrow> filled a0 new (base + j * stride) b \<Longrightarrow>
           \<exists>a'. body j b = Inr a' \<and> filled a0 new (base + Suc j * stride) a'"
  shows "\<exists>a'. for_range [0..<n] body a = Inr a' \<and> filled a0 new (base + n * stride) a'"
  by (rule for_range_rule[where P = "\<lambda>j. filled a0 new (base + j * stride)"])
     (use assms in simp_all)

lemma norm_index_mid:
  assumes "0 < Ny"
  shows "norm_index (int (Ny div 2) - 1) Ny = Inr (mid_line Ny)" "mid_line Ny < Ny"
  using assms by (auto simp: norm_index_def mid_line_def Let_def)

lemma norm_index_nat: "i < n \<Longrightarrow> norm_index (int i) n = Inr i"
  by (simp add: norm_index_def)

lemma column3_ok:
  "shape u = [Nkz, Nx, Ny] \<Longrightarrow> ix < Nx \<Longrightarrow> norm_index iy Ny = Inr j \<Longrightarrow>
   column3 u ix iy = Inr (map (\<lambda>k. data u ! ((k * Nx + ix) * Ny + j)) [0..<Nkz])"
  by (simp add: column3_def)

lemma column3_synth:
  assumes u: "shape u = [Nkz, Nx, Ny]" "length kz = Nkz" and i: "ix < Nx" "norm_index iy Ny = Inr j"
  shows "attempt a (column3 u ix iy) (\<lambda>col. attempt a (synth col (FFT_factor c kz tt)) K)
       = K (synthesis c kz tt (\<lambda>k. at3 u k ix j))"
proof -
  let ?col = "map (\<lambda>k. data u ! ((k * Nx + ix) * Ny + j)) [0..<Nkz]"
  have s: "synth ?col (FFT_factor c kz tt) = Inr (synthesis c kz tt ((!) ?col))"
    using u by (intro synth_closed) simp
  have "synthesis c kz tt ((!) ?col) = synthesis c kz tt (\<lambda>k. at3 u k ix j)"
    using u by (intro synthesis_cong) (simp add: at3_def)
  then show ?thesis using column3_ok[OF u(1) i] s by (simp add: attempt_def)
qed

lemma slice2d_closed:
  assumes u: "shape u = [Nkz, Nx, Ny]" "length kz = Nkz" "0 < Ny"
    and ut: "shape u_t = [M, Nx]" "wf_array u_t" "length t \<le> M"
  shows "get_temporal_slice2d c u u_t t kz =
           Inr \<lparr>shape = [M, Nx],
                data = map (\<lambda>q. if q < length t * Nx
                                 then synthesis c kz (t ! (q div Nx))
                                        (\<lambda>k. at3 u k (q mod Nx) (mid_line Ny))
                                 else data u_t ! q) [0..<M * Nx]\<rparr>"
proof -
  let ?new = "\<lambda>q. synthesis c kz (t ! (q div Nx)) (\<lambda>k. at3 u k (q mod Nx) (mid_line Ny))"
  let ?body = "\<lambda>it ix a. attempt a (column3 u ix (int (Ny div 2) - 1)) (\<lambda>col.
               attempt a (synth col (FFT_factor c kz (t ! it))) (\<lambda>v.
               attempt a (setitem a [it, ix] v) Inr))"
  have len: "length (data u_t) = M * Nx"
    using ut by (simp add: wf_array_def)
  have "\<exists>a'. for_range [0..<length t] (\<lambda>it a. for_range [0..<Nx] (?body it) a) u_t = Inr a'
            \<and> filled u_t ?new (length t * Nx) a'"
    using ut(1) len ut(3)
  proof (rule fill2_loops)
    fix it j a
    assume h: "it < length t" "j < Nx" "filled u_t ?new (it * Nx + j) a"
    have dm: "(it * Nx + j) div Nx = it" "(it * Nx + j) mod Nx = j" using h by simp_all
    have lt: "it * Nx + j < M * Nx" using h ut(3) by (intro flat_index_less) simp_all
    have "\<exists>a'. setitem a [it, j] (?new (it * Nx + j)) = Inr a' \<and> filled u_t ?new (Suc (it * Nx + j)) a'"
      using h ut len lt by (intro setitem_filled) simp_all
    then show "\<exists>a'. ?body it j a = Inr a' \<and> filled u_t ?new (Suc (it * Nx + j)) a'"
      unfolding column3_synth[OF u(1,2) h(2) norm_index_mid(1)[OF u(3)]] dm
      by (auto simp: attempt_def)
  qed
  then obtain a' where a':
    "for_range [0..<length t] (\<lambda>it a. for_range [0..<Nx] (?body it) a) u_t = Inr a'"
    "filled u_t ?new (length t * Nx) a'"
    by blast
  have "data a' = map (\<lambda>q. if q < length t * Nx then ?new q else data u_t ! q) [0..<M * Nx]"
    using a'(2) len by (intro nth_equalityI) (auto simp: filled_def)
  moreover have "shape a' = [M, Nx]" using a'(2) ut by (simp add: filled_def)
  ultimately have "a' = \<lparr>shape = [M, Nx],
      data = map (\<lambda>q. if q < length t * Nx then ?new q else data u_t ! q) [0..<M * Nx]\<rparr>"
    by simp
  then show ?thesis
    using a'(1) u ut len by (simp add: get_temporal_slice2d_def Let_def)
qed

lemma volume_closed:
  assumes u: "shape u = [Nkz, Nx, Ny]" "length kz = Nkz"
  shows "get_temporal_3d junk c u t kz =
           Inr \<lparr>shape = [length t, Nx, Ny],
                data = map (\<lambda>q. synthesis c kz (t ! (q div (Nx * Ny)))
                                  (\<lambda>k. at3 u k (q div Ny mod Nx) (q mod Ny)))
                           [0..<length t * Nx * Ny]\<rparr>"
proof -
  let ?new = "\<lambda>q. synthesis c kz (t ! (q div (Nx * Ny))) (\<lambda>k. at3 u k (q div Ny mod Nx) (q mod Ny))"
  let ?a0 = "np_empty junk [length t, Nx, Ny]"
  let ?leaf = "\<lambda>it ix iy a. attempt a (column3 u ix (int iy)) (\<lambda>col.
               attempt a (synth col (FFT_factor c kz (t ! it))) (\<lambda>v.
               attempt a (setitem a [it, ix, iy] v) Inr))"
  have sh: "shape ?a0 = [length t, Nx, Ny]" and len: "length (data ?a0) = length t * Nx * Ny"
    by (simp_all add: np_empty_def)
  have leaf: "\<exists>a'. ?leaf it ix iy a = Inr a' \<and> filled ?a0 ?new (it * (Nx * Ny) + ix * Ny + Suc iy * 1) a'"
    if h: "it < length t" "ix < Nx" "iy < Ny" "filled ?a0 ?new (it * (Nx * Ny) + ix * Ny + iy * 1) a"
    for it ix iy a
  proof -
    let ?b = "(it * Nx + ix) * Ny + iy"
    have b: "it * (Nx * Ny) + ix * Ny + iy * 1 = ?b" by (simp add: algebra_simps)
    have lt1: "it * Nx + ix < length t * Nx" using h by (intro flat_index_less)
    have lt: "?b < length t * Nx * Ny" using lt1 h(3) by (rule flat_index_less)
    have d1: "?b div Ny = it * Nx + ix" "?b mod Ny = iy" using h by simp_all
    have d2: "?b div (Nx * Ny) = it"
      using h d1 by (metis div_mult2_eq div_mult_self3 div_less add.right_neutral mult.commute not_less_zero)
    have d3: "?b div Ny mod Nx = ix" using h d1 by simp
    have "\<exists>a'. setitem a [it, ix, iy] (?new ?b) = Inr a' \<and> filled ?a0 ?new (Suc ?b) a'"
      using h sh len lt b by (intro setitem_filled) simp_all
    then show ?thesis
      unfolding column3_synth[OF u h(2) norm_index_nat[OF h(3)]] using b d1 d2 d3
      by (auto simp: attempt_def)
  qed
  have "\<exists>a'. for_range [0..<length t] (\<lambda>it a. for_range [0..<Nx] (\<lambda>ix a.
               for_range [0..<Ny] (?leaf it ix) a) a) ?a0 = Inr a'
            \<and> filled ?a0 ?new (0 + length t * (Nx * Ny)) a'"
  proof (rule fill_loop)
    show "filled ?a0 ?new 0 ?a0" by (rule filled_start)
  next
    fix it a assume it: "it < length t" and f: "filled ?a0 ?new (0 + it * (Nx * Ny)) a"
    have "\<exists>a'. for_range [0..<Nx] (\<lambda>ix a. for_range [0..<Ny] (?leaf it ix) a) a = Inr a'
            \<and> filled ?a0 ?new (it * (Nx * Ny) + Nx * Ny) a'"
    proof (rule fill_loop)
      show "filled ?a0 ?new (it * (Nx * Ny)) a" using f by simp
    next
      fix ix b assume ix: "ix < Nx" and g: "filled ?a0 ?new (it * (Nx * Ny) + ix * Ny) b"
      have "\<exists>a'. for_range [0..<Ny] (?leaf it ix) b = Inr a'
            \<and> filled ?a0 ?new (it * (Nx * Ny) + ix * Ny + Ny * 1) a'"
      proof (rule fill_loop)
        show "filled ?a0 ?new (it * (Nx * Ny) + ix * Ny) b" by (rule g)
      next
        fix iy d assume "iy < Ny" "filled ?a0 ?new (it * (Nx * Ny) + ix * Ny + iy * 1) d"
        then show "\<exists>a'. ?leaf it ix iy d = Inr a'
            \<and> filled ?a0 ?new (it * (Nx * Ny) + ix * Ny + Suc iy * 1) a'"
          using leaf[OF it ix] by blast
      qed
      then show "\<exists>a'. for_range [0..<Ny] (?leaf it ix) b = Inr a'
            \<and> filled ?a0 ?new (it * (Nx * Ny) + Suc ix * Ny) a'"
        by (simp add: algebra_simps)
    qed
    then show "\<exists>a'. for_range [0..<Nx] (\<lambda>ix a. for_range [0..<Ny] (?leaf it ix) a) a = Inr a'
            \<and> filled ?a0 ?new (0 + Suc it * (Nx * Ny)) a'"
      by (simp add: algebra_simps)
  qed
  then obtain a' where a':
    "for_range [0..<length t] (\<lambda>it a. for_range [0..<Nx] (\<lambda>ix a.
               for_range [0..<Ny] (?leaf it ix) a) a) ?a0 = Inr a'"
    "filled ?a0 ?new (0 + length t * (Nx * Ny)) a'"
    by blast
  have "a' = \<lparr>shape = shape ?a0, data = map ?new [0..<length (data ?a0)]\<rparr>"
    using a'(2) len by (intro filled_all[where m = "length t * (Nx * Ny)"]) simp_all
  then show ?thesis
    using a'(1) u sh len by (simp add: get_temporal_3d_def Let_def)
qed

lemma block_iff_div:
  assumes "0 < (P::nat)"
  shows "(i * P \<le> q \<and> q < i * P + P) = (q div P = i)"
proof
  assume "i * P \<le> q \<and> q < i * P + P"
  then show "q div P = i"
    using assms by (metis add.commute div_nat_eqI mult.commute mult_Suc_right)
next
  assume "q div P = i"
  then show "i * P \<le> q \<and> q < i * P + P"
    using assms by (metis add.commute div_nat_eqI dividend_less_times_div mult.commute times_div_less_eq_dividend)
qed

lemma accumulate_closed:
  assumes u: "shape u = [Nkz, Nr]" "length kz = Nkz"
    and ut: "shape u_t = n0 # rest" "last (n0 # rest) = Nr" "wf_array u_t" "length t \<le> n0"
    and L: "nat Nr_loc \<le> Nr"
  shows "get_temporal_1d c u u_t t kz Nr_loc =
           Inr \<lparr>shape = n0 # rest,
                data = map (\<lambda>q. data u_t ! q
                                 + (if q div prod_list rest < length t
                                    then accumulated c u t kz (nat Nr_loc) (q div prod_list rest)
                                    else 0))
                           [0..<length (data u_t)]\<rparr>"
proof -
  let ?P = "prod_list rest"
  let ?L = "nat Nr_loc"
  let ?n = "length (data u_t)"
  let ?amt = "\<lambda>it ir q. if q div ?P < it then accumulated c u t kz ?L (q div ?P)
                         else if q div ?P = it then accumulated c u t kz ir it else 0"
  let ?J = "\<lambda>it ir. filled u_t (\<lambda>q. data u_t ! q + ?amt it ir q) ?n"
  let ?leaf = "\<lambda>it ir a. attempt a (iadd_item a it
                 (case column2 u ir of Inl e \<Rightarrow> Inl e
                  | Inr col \<Rightarrow> synth col (FFT_factor c kz (t ! it)))) Inr"
  have len: "?n = n0 * ?P" using ut by (simp add: wf_array_def)
  have leaf: "\<exists>a'. ?leaf it ir a = Inr a' \<and> ?J it (Suc ir) a'"
    if h: "it < length t" "ir < ?L" "?J it ir a" for it ir a
  proof -
    let ?col = "map (\<lambda>k. data u ! (k * Nr + ir)) [0..<Nkz]"
    let ?v = "synthesis c kz (t ! it) (\<lambda>k. at2 u k ir)"
    have irN: "ir < Nr" using h(2) L by simp
    have "synth ?col (FFT_factor c kz (t ! it)) = Inr (synthesis c kz (t ! it) ((!) ?col))"
      using u by (intro synth_closed) simp
    moreover have "synthesis c kz (t ! it) ((!) ?col) = ?v"
      using u by (intro synthesis_cong) (simp add: at2_def)
    ultimately have rhs: "(case column2 u ir of Inl e \<Rightarrow> Inl e
                  | Inr col \<Rightarrow> synth col (FFT_factor c kz (t ! it))) = Inr ?v"
      using column2_ok[OF u(1) irN] by simp
    have sa: "shape a = n0 # rest" "length (data a) = ?n"
      and da: "\<And>q. q < ?n \<Longrightarrow> data a ! q = data u_t ! q + ?amt it ir q"
      using h(3) ut by (simp_all add: filled_def)
    have it0: "it < n0" using h(1) ut(4) by simp
    let ?a' = "a\<lparr>data := map (\<lambda>q. if it * ?P \<le> q \<and> q < it * ?P + ?P then data a ! q + ?v
                                           else data a ! q) [0..<length (data a)]\<rparr>"
    have ia: "iadd_item a it (Inr ?v) = Inr ?a'"
      using sa it0 by (simp add: iadd_item_def)
    have "data ?a' ! q = data u_t ! q + ?amt it (Suc ir) q" if q: "q < ?n" for q
    proof -
      have "0 < ?P" using q len by (cases "?P = 0") simp_all
      then have blk: "(it * ?P \<le> q \<and> q < it * ?P + ?P) = (q div ?P = it)"
        by (rule block_iff_div)
      have "data ?a' ! q = (if q div ?P = it then data a ! q + ?v else data a ! q)"
        using q sa by (simp add: blk)
      then show ?thesis
        using da[OF q] by (simp add: accumulated_def)
    qed
    then have "?J it (Suc ir) ?a'"
      using sa ut by (simp add: filled_def)
    then show ?thesis using rhs ia by (simp add: attempt_def)
  qed
  have "\<exists>a'. for_range [0..<length t] (\<lambda>it a. for_range [0..<?L] (?leaf it) a) u_t = Inr a'
            \<and> ?J (length t) 0 a'"
  proof (rule for_range_rule[where P = "\<lambda>it. ?J it 0"])
    show "?J 0 0 u_t" by (simp add: filled_def accumulated_def)
  next
    fix it a assume it: "it < length t" and f: "?J it 0 a"
    have "\<exists>a'. for_range [0..<?L] (?leaf it) a = Inr a' \<and> ?J it ?L a'"
      by (rule for_range_rule[where P = "\<lambda>ir. ?J it ir"]) (use f leaf[OF it] in blast)+
    moreover have amt_eq: "?amt it ?L q = ?amt (Suc it) 0 q" for q
      by (auto simp: accumulated_def dest: less_antisym)
    have "(\<lambda>q. data u_t ! q + ?amt it ?L q) = (\<lambda>q. data u_t ! q + ?amt (Suc it) 0 q)"
      by (rule ext) (rule arg_cong2[where f = "(+)"], rule refl, rule amt_eq)
    then have "?J it ?L a' = ?J (Suc it) 0 a'" for a'
      by (rule arg_cong[where f = "\<lambda>g. filled u_t g ?n a'"])
    ultimately show "\<exists>a'. for_range [0..<?L] (?leaf it) a = Inr a' \<and> ?J (Suc it) 0 a'"
      by simp
  qed
  then obtain a' where a':
    "for_range [0..<length t] (\<lambda>it a. for_range [0..<?L] (?leaf it) a) u_t = Inr a'"
    "?J (length t) 0 a'"
    by blast
  have "a' = \<lparr>shape = shape u_t,
              data = map (\<lambda>q. data u_t ! q + ?amt (length t) 0 q) [0..<?n]\<rparr>"
    using a'(2) by (intro filled_all[where m = ?n]) simp_all
  moreover have "map (\<lambda>q. data u_t ! q + ?amt (length t) 0 q) [0..<?n]
      = map (\<lambda>q. data u_t ! q + (if q div ?P < length t
                                    then accumulated c u t kz ?L (q div ?P) else 0)) [0..<?n]"
    by (simp add: accumulated_def)
  ultimately show ?thesis
    using a'(1) u ut by (simp add: get_temporal_1d_def Let_def)
qed

section \<open>Linearity of the synthesis\<close>

lemma shape_scaled: "shape (scaled k u) = shape u"
  by (simp add: scaled_def)

lemma at2_scaled:
  assumes "shape u = [Nkz, Nr]" "wf_array u" "i < Nkz" "j < Nr"
  shows "at2 (scaled k u) i j = complex_of_real k * at2 u i j"
proof -
  have "i * Nr + j < Nkz * Nr" using assms(3,4) by (rule flat_index_less)
  then show ?thesis using assms(1,2) by (simp add: at2_def scaled_def wf_array_def)
qed

lemma at3_scaled:
  assumes "shape u = [Nkz, Nx, Ny]" "wf_array u" "i < Nkz" "ix < Nx" "iy < Ny"
  shows "at3 (scaled k u) i ix iy = complex_of_real k * at3 u i ix iy"
proof -
  have "i * Nx + ix < Nkz * Nx" using assms(3,4) by (rule flat_index_less)
  then have "(i * Nx + ix) * Ny + iy < Nkz * Nx * Ny" using assms(5) by (rule flat_index_less)
  then show ?thesis using assms(1,2) by (simp add: at3_def scaled_def wf_array_def)
qed

lemma synthesis_scaled:
  assumes "\<And>i. i < length kz \<Longrightarrow> g i = complex_of_real k * f i"
  shows "synthesis c kz tt g = k * synthesis c kz tt f"
proof -
  have "synthesis c kz tt g = (\<Sum>i<length kz. k * Re (f i * exp (\<i> * complex_of_real (kz ! i) * complex_of_real c
                                      * complex_of_real tt)))"
    unfolding synthesis_def using assms by (intro sum.cong refl) (simp add: mult.assoc)
  then show ?thesis by (simp add: synthesis_def sum_distrib_left)
qed

lemma radial_linear:
  assumes u: "shape u = [Nkz, Nr]" "wf_array u" "length kz = Nkz"
    and ut: "shape u_t = [length t, Nr]" "wf_array u_t"
  shows "\<exists>R. get_temporal_radial c u u_t t kz = Inr R
           \<and> get_temporal_radial c (scaled k u) u_t t kz = Inr (R\<lparr>data := map ((*) k) (data R)\<rparr>)"
proof -
  have "synthesis c kz (t ! (q div Nr)) (\<lambda>i. at2 (scaled k u) i (q mod Nr))
      = k * synthesis c kz (t ! (q div Nr)) (\<lambda>i. at2 u i (q mod Nr))"
    if "q < length t * Nr" for q
  proof (rule synthesis_scaled)
    fix i assume "i < length kz"
    moreover have "q mod Nr < Nr" using that by (cases "Nr = 0") simp_all
    ultimately show "at2 (scaled k u) i (q mod Nr) = complex_of_real k * at2 u i (q mod Nr)"
      using u by (intro at2_scaled) simp_all
  qed
  then have "map (\<lambda>q. synthesis c kz (t ! (q div Nr)) (\<lambda>i. at2 (scaled k u) i (q mod Nr))) [0..<length t * Nr]
     = map ((*) k) (map (\<lambda>q. synthesis c kz (t ! (q div Nr)) (\<lambda>i. at2 u i (q mod Nr))) [0..<length t * Nr])"
    by simp
  then show ?thesis
    using radial_closed[OF u(1,3) ut, of c]
      radial_closed[of "scaled k u" Nkz Nr kz u_t t c] u ut
    by (simp add: shape_scaled)
qed

lemma slice2d_linear:
  assumes u: "shape u = [Nkz, Nx, Ny]" "wf_array u" "length kz = Nkz" "0 < Ny"
    and ut: "shape u_t = [length t, Nx]" "wf_array u_t"
  shows "\<exists>R. get_temporal_slice2d c u u_t t kz = Inr R
           \<and> get_temporal_slice2d c (scaled k u) u_t t kz = Inr (R\<lparr>data := map ((*) k) (data R)\<rparr>)"
proof -
  have "synthesis c kz (t ! (q div Nx)) (\<lambda>i. at3 (scaled k u) i (q mod Nx) (mid_line Ny))
      = k * synthesis c kz (t ! (q div Nx)) (\<lambda>i. at3 u i (q mod Nx) (mid_line Ny))"
    if "q < length t * Nx" for q
  proof (rule synthesis_scaled)
    fix i assume "i < length kz"
    moreover have "q mod Nx < Nx" using that by (cases "Nx = 0") simp_all
    ultimately show "at3 (scaled k u) i (q mod Nx) (mid_line Ny)
        = complex_of_real k * at3 u i (q mod Nx) (mid_line Ny)"
      using u norm_index_mid(2)[OF u(4)] by (intro at3_scaled) simp_all
  qed
  then have "map (\<lambda>q. if q < length t * Nx
                      then synthesis c kz (t ! (q div Nx)) (\<lambda>i. at3 (scaled k u) i (q mod Nx) (mid_line Ny))
                      else data u_t ! q) [0..<length t * Nx]
     = map ((*) k) (map (\<lambda>q. if q < length t * Nx
                      then synthesis c kz (t ! (q div Nx)) (\<lambda>i. at3 u i (q mod Nx) (mid_line Ny))
                      else data u_t ! q) [0..<length t * Nx])"
    by simp
  then show ?thesis
    using slice2d_closed[OF u(1,3,4) ut order_refl, of c]
      slice2d_closed[of "scaled k u" Nkz Nx Ny kz u_t "length t" t c] u ut
    by (simp add: shape_scaled)
qed

lemma volume_linear:
  assumes u: "shape u = [Nkz, Nx, Ny]" "wf_array u" "length kz = Nkz"
  shows "\<exists>R. get_temporal_3d junk c u t kz = Inr R
           \<and> get_temporal_3d junk' c (scaled k u) t kz = Inr (R\<lparr>data := map ((*) k) (data R)\<rparr>)"
proof -
  have "synthesis c kz (t ! (q div (Nx * Ny))) (\<lambda>i. at3 (scaled k u) i (q div Ny mod Nx) (q mod Ny))
      = k * synthesis c kz (t ! (q div (Nx * Ny))) (\<lambda>i. at3 u i (q div Ny mod Nx) (q mod Ny))"
    if "q < length t * Nx * Ny" for q
  proof (rule synthesis_scaled)
    fix i assume "i < length kz"
    moreover have "q mod Ny < Ny" using that by (cases "Ny = 0") simp_all
    moreover have "q div Ny mod Nx < Nx" using that by (cases "Nx = 0") simp_all
    ultimately show "at3 (scaled k u) i (q div Ny mod Nx) (q mod Ny)
        = complex_of_real k * at3 u i (q div Ny mod Nx) (q mod Ny)"
      using u by (intro at3_scaled) simp_all
  qed
  then have "map (\<lambda>q. synthesis c kz (t ! (q div (Nx * Ny))) (\<lambda>i. at3 (scaled k u) i (q div Ny mod Nx) (q mod Ny))) [0..<length t * Nx * Ny]
     = map ((*) k) (map (\<lambda>q. synthesis c kz (t ! (q div (Nx * Ny))) (\<lambda>i. at3 u i (q div Ny mod Nx) (q mod Ny))) [0..<length t * Nx * Ny])"
    by simp
  then show ?thesis
    using volume_closed[OF u(1,3), of junk c t]
      volume_closed[of "scaled k u" Nkz Nx Ny kz junk' c t] u
    by (simp add: shape_scaled)
qed

lemma accumulated_scaled:
  assumes u: "shape u = [Nkz, Nr]" "wf_array u" "length kz = Nkz" and L: "L \<le> Nr"
  shows "accumulated c (scaled k u) t kz L it = k * accumulated c u t kz L it"
proof -
  have "synthesis c kz (t ! it) (\<lambda>i. at2 (scaled k u) i ir)
      = k * synthesis c kz (t ! it) (\<lambda>i. at2 u i ir)" if "ir < L" for ir
  proof (rule synthesis_scaled)
    fix i assume "i < length kz"
    then show "at2 (scaled k u) i ir = complex_of_real k * at2 u i ir"
      using u that L by (intro at2_scaled[where Nkz = Nkz and Nr = Nr]) simp_all
  qed
  then show ?thesis
    by (simp add: accumulated_def sum_distrib_left)
qed

lemma accumulate_linear:
  assumes u: "shape u = [Nkz, Nr]" "wf_array u" "length kz = Nkz"
    and ut: "shape u_t = n0 # rest" "last (n0 # rest) = Nr" "wf_array u_t" "length t \<le> n0"
    and L: "nat Nr_loc \<le> Nr"
  shows "\<exists>R1 R2. get_temporal_1d c u u_t t kz Nr_loc = Inr R1
           \<and> get_temporal_1d c (scaled k u) u_t t kz Nr_loc = Inr R2
           \<and> shape R1 = shape u_t \<and> shape R2 = shape u_t
           \<and> length (data R1) = length (data u_t) \<and> length (data R2) = length (data u_t)
           \<and> (\<forall>q<length (data u_t). data R2 ! q - data u_t ! q = k * (data R1 ! q - data u_t ! q))"
  using accumulate_closed[OF u(1,3) ut L, of c]
    accumulate_closed[of "scaled k u" Nkz Nr kz u_t n0 rest t Nr_loc c] u ut L
  by (simp add: shape_scaled accumulated_scaled[OF u L])

section \<open>Assertions and linearity of the kernels\<close>

text \<open>
  C4 (amended). With \<open>u\<close> of the kernel's rank: a call of the 1-D accumulate kernel whose
  \<open>u_t\<close> has a last axis other than \<open>Nr\<close>, a call of the radial-resolved or of the
  transverse-slice kernel whose two-dimensional \<open>u_t\<close> has a last axis other than \<open>Nr\<close>,
  resp. \<open>Nx\<close>, and a call of the radial-resolved kernel whose \<open>u_t\<close> has a leading axis
  other than \<open>len(t)\<close>, fails by its assertion with \<open>u_t\<close> as it was passed. When the
  axis lengths agree (those of the assertions, \<open>len(kz)\<close> with the leading axis of \<open>u\<close>, a
  row of \<open>u_t\<close> for every time, \<open>Nr_loc\<close> within \<open>Nr\<close>, a line to read in the slice kernel),
  no assertion fires: every kernel returns normally. The length of \<open>kz\<close> is checked by no
  precondition: a call without time samples returns \<open>u_t\<close> as it was passed, whatever
  the length of \<open>kz\<close> is.
\<close>

theorem kernel_assertions:
  assumes "shape u2 = [Nkz, Nr]" "shape u3 = [Nkz, Nx, Ny]"
  shows "(shape u_t \<noteq> [] \<and> last (shape u_t) \<noteq> Nr \<longrightarrow>
            get_temporal_1d c u2 u_t t kz Nr_loc = Inl (AssertionError, u_t))
       \<and> (shape u_t = [M, N] \<and> N \<noteq> Nr \<longrightarrow>
            get_temporal_radial c u2 u_t t kz = Inl (AssertionError, u_t))
       \<and> (shape u_t = [M, Nr] \<and> M \<noteq> length t \<longrightarrow>
            get_temporal_radial c u2 u_t t kz = Inl (AssertionError, u_t))
       \<and> (shape u_t = [M, N] \<and> N \<noteq> Nx \<longrightarrow>
            get_temporal_slice2d c u3 u_t t kz = Inl (AssertionError, u_t))
       \<and> (length kz = Nkz \<and> wf_array u_t \<and> shape u_t = n0 # rest \<and> last (n0 # rest) = Nr
            \<and> length t \<le> n0 \<and> nat Nr_loc \<le> Nr \<longrightarrow>
            (\<exists>R. get_temporal_1d c u2 u_t t kz Nr_loc = Inr R))
       \<and> (length kz = Nkz \<and> wf_array u_t \<and> shape u_t = [length t, Nr] \<longrightarrow>
            (\<exists>R. get_temporal_radial c u2 u_t t kz = Inr R))
       \<and> (length kz = Nkz \<and> wf_array u_t \<and> shape u_t = [M, Nx] \<and> length t \<le> M \<and> 0 < Ny \<longrightarrow>
            (\<exists>R. get_temporal_slice2d c u3 u_t t kz = Inr R))
       \<and> (length kz = Nkz \<longrightarrow> (\<exists>R. get_temporal_3d junk c u3 t kz = Inr R))
       \<and> (shape u_t \<noteq> [] \<and> last (shape u_t) = Nr \<longrightarrow>
            get_temporal_1d c u2 u_t [] kz Nr_loc = Inr u_t)
       \<and> (shape u_t = [0, Nr] \<longrightarrow> get_temporal_radial c u2 u_t [] kz = Inr u_t)
       \<and> (shape u_t = [M, Nx] \<longrightarrow> get_temporal_slice2d c u3 u_t [] kz = Inr u_t)"
proof (intro conjI impI)
  assume "shape u_t \<noteq> [] \<and> last (shape u_t) \<noteq> Nr"
  then show "get_temporal_1d c u2 u_t t kz Nr_loc = Inl (AssertionError, u_t)"
    using assms by (simp add: get_temporal_1d_def)
next
  assume "shape u_t = [M, N] \<and> N \<noteq> Nr"
  then show "get_temporal_radial c u2 u_t t kz = Inl (AssertionError, u_t)"
    using assms by (simp add: get_temporal_radial_def)
next
  assume "shape u_t = [M, Nr] \<and> M \<noteq> length t"
  then show "get_temporal_radial c u2 u_t t kz = Inl (AssertionError, u_t)"
    using assms by (simp add: get_temporal_radial_def)
next
  assume "shape u_t = [M, N] \<and> N \<noteq> Nx"
  then show "get_temporal_slice2d c u3 u_t t kz = Inl (AssertionError, u_t)"
    using assms by (simp add: get_temporal_slice2d_def)
next
  assume a: "length kz = Nkz \<and> wf_array u_t \<and> shape u_t = n0 # rest \<and> last (n0 # rest) = Nr
            \<and> length t \<le> n0 \<and> nat Nr_loc \<le> Nr"
  show "\<exists>R. get_temporal_1d c u2 u_t t kz Nr_loc = Inr R"
    using accumulate_closed[of u2 Nkz Nr kz u_t n0 rest t Nr_loc c] assms(1) a by blast
next
  assume a: "length kz = Nkz \<and> wf_array u_t \<and> shape u_t = [length t, Nr]"
  show "\<exists>R. get_temporal_radial c u2 u_t t kz = Inr R"
    using radial_closed[of u2 Nkz Nr kz u_t t c] assms(1) a by blast
next
  assume a: "length kz = Nkz \<and> wf_array u_t \<and> shape u_t = [M, Nx] \<and> length t \<le> M \<and> 0 < Ny"
  show "\<exists>R. get_temporal_slice2d c u3 u_t t kz = Inr R"
    using slice2d_closed[of u3 Nkz Nx Ny kz u_t M t c] assms(2) a by blast
next
  assume a: "length kz = Nkz"
  show "\<exists>R. get_temporal_3d junk c u3 t kz = Inr R"
    using volume_closed[of u3 Nkz Nx Ny kz junk c t] assms(2) a by blast
next
  assume "shape u_t \<noteq> [] \<and> last (shape u_t) = Nr"
  then show "get_temporal_1d c u2 u_t [] kz Nr_loc = Inr u_t"
    using assms by (simp add: get_temporal_1d_def)
next
  assume "shape u_t = [0, Nr]"
  then show "get_temporal_radial c u2 u_t [] kz = Inr u_t"
    using assms by (simp add: get_temporal_radial_def)
next
  assume "shape u_t = [M, Nx]"
  then show "get_temporal_slice2d c u3 u_t [] kz = Inr u_t"
    using assms by (simp add: get_temporal_slice2d_def)
qed

text \<open>
  A \<open>u_t\<close> of last axis 3 against \<open>Nr = 2\<close>, one of two rows against one time, and one of
  the right shape with a \<open>kz\<close> of the right length.
\<close>

theorem kernel_assertions_witness:
  "get_temporal_radial speed_of_light \<lparr>shape = [1, 2], data = [1, 1]\<rparr>
       \<lparr>shape = [1, 3], data = [0, 0, 0]\<rparr> [0] [0]
     = Inl (AssertionError, \<lparr>shape = [1, 3], data = [0, 0, 0]\<rparr>)
   \<and> get_temporal_radial speed_of_light \<lparr>shape = [1, 2], data = [1, 1]\<rparr>
       \<lparr>shape = [2, 2], data = [0, 0, 0, 0]\<rparr> [0] [0]
     = Inl (AssertionError, \<lparr>shape = [2, 2], data = [0, 0, 0, 0]\<rparr>)
   \<and> (\<exists>R. get_temporal_radial speed_of_light \<lparr>shape = [1, 2], data = [1, 1]\<rparr>
       \<lparr>shape = [1, 2], data = [0, 0]\<rparr> [0] [0] = Inr R)"
proof -
  have u2: "shape \<lparr>shape = [1, 2], data = [1, 1 :: complex]\<rparr> = [1, 2]" by simp
  have u3: "shape \<lparr>shape = [1, 2, 1], data = [1, 1 :: complex]\<rparr> = [1, 2, 1]" by simp
  have a: "shape \<lparr>shape = [1, 3], data = [0, 0, 0 :: real]\<rparr> = [1, 3] \<and> (3 :: nat) \<noteq> 2"
    by simp
  have b: "shape \<lparr>shape = [2, 2], data = [0, 0, 0, 0 :: real]\<rparr> = [2, 2]
      \<and> 2 \<noteq> length [0 :: real]"
    by simp
  have d: "length [0 :: real] = 1 \<and> wf_array \<lparr>shape = [1, 2], data = [0, 0 :: real]\<rparr>
      \<and> shape \<lparr>shape = [1, 2], data = [0, 0 :: real]\<rparr> = [length [0 :: real], 2]"
    by (simp add: wf_array_def)
  from a have 1: "get_temporal_radial speed_of_light \<lparr>shape = [1, 2], data = [1, 1]\<rparr>
       \<lparr>shape = [1, 3], data = [0, 0, 0]\<rparr> [0] [0]
     = Inl (AssertionError, \<lparr>shape = [1, 3], data = [0, 0, 0]\<rparr>)"
    using kernel_assertions[OF u2 u3, where c = speed_of_light and t = "[0]" and kz = "[0]"
        and u_t = "\<lparr>shape = [1, 3], data = [0, 0, 0]\<rparr>" and M = 1 and N = 3]
    by blast
  from b have 2: "get_temporal_radial speed_of_light \<lparr>shape = [1, 2], data = [1, 1]\<rparr>
       \<lparr>shape = [2, 2], data = [0, 0, 0, 0]\<rparr> [0] [0]
     = Inl (AssertionError, \<lparr>shape = [2, 2], data = [0, 0, 0, 0]\<rparr>)"
    using kernel_assertions[OF u2 u3, where c = speed_of_light and t = "[0]" and kz = "[0]"
        and u_t = "\<lparr>shape = [2, 2], data = [0, 0, 0, 0]\<rparr>" and M = 2]
    by blast
  from d have 3: "\<exists>R. get_temporal_radial speed_of_light \<lparr>shape = [1, 2], data = [1, 1]\<rparr>
       \<lparr>shape = [1, 2], data = [0, 0]\<rparr> [0] [0] = Inr R"
    using kernel_assertions[OF u2 u3, where c = speed_of_light and t = "[0]" and kz = "[0]"
        and u_t = "\<lparr>shape = [1, 2], data = [0, 0]\<rparr>"]
    by blast
  from 1 2 3 show ?thesis by blast
qed

text \<open>
  C4 as stated fails: \<open>u\<close> has two modes and \<open>kz\<close> has one entry, so the leading axis of
  \<open>u\<close> differs from \<open>len(kz)\<close>; with no time sample asked for, the 1-D accumulate and the
  radial-resolved kernel pass their assertions and return \<open>u_t\<close> as it was passed. No
  precondition fails.
\<close>

theorem kernel_assertions_counterexample:
  "get_temporal_1d speed_of_light \<lparr>shape = [2, 1], data = [1, 1]\<rparr>
       \<lparr>shape = [1], data = [5]\<rparr> [] [0] 1 = Inr \<lparr>shape = [1], data = [5]\<rparr>
   \<and> get_temporal_radial speed_of_light \<lparr>shape = [2, 1], data = [1, 1]\<rparr>
       \<lparr>shape = [0, 1], data = []\<rparr> [] [0] = Inr \<lparr>shape = [0, 1], data = []\<rparr>
   \<and> length [0 :: real] \<noteq> hd (shape \<lparr>shape = [2, 1], data = [1, 1 :: complex]\<rparr>)"
  by (simp add: get_temporal_1d_def get_temporal_radial_def)

text \<open>
  C5. Synthesis is linear in \<open>u\<close>: on valid inputs, scaling \<open>u\<close> by the real constant \<open>k\<close>
  scales the output of the radial-resolved, the transverse-slice and the full-volume kernel
  by \<open>k\<close>, and scales by \<open>k\<close> what the 1-D accumulate kernel adds into each slot of \<open>u_t\<close>.
\<close>

theorem synthesis_linear:
  assumes u2: "shape u2 = [Nkz, Nr]" "wf_array u2"
    and u3: "shape u3 = [Nkz, Nx, Ny]" "wf_array u3" "0 < Ny"
    and kz: "length kz = Nkz"
    and r: "shape u_r = [length t, Nr]" "wf_array u_r"
    and s: "shape u_s = [length t, Nx]" "wf_array u_s"
    and a: "shape u_a = n0 # rest" "last (n0 # rest) = Nr" "wf_array u_a" "length t \<le> n0"
      "nat Nr_loc \<le> Nr"
  shows "(\<exists>R. get_temporal_radial c u2 u_r t kz = Inr R
            \<and> get_temporal_radial c (scaled k u2) u_r t kz
                = Inr (R\<lparr>data := map ((*) k) (data R)\<rparr>))
       \<and> (\<exists>R. get_temporal_slice2d c u3 u_s t kz = Inr R
            \<and> get_temporal_slice2d c (scaled k u3) u_s t kz
                = Inr (R\<lparr>data := map ((*) k) (data R)\<rparr>))
       \<and> (\<exists>R. get_temporal_3d junk c u3 t kz = Inr R
            \<and> get_temporal_3d junk' c (scaled k u3) t kz
                = Inr (R\<lparr>data := map ((*) k) (data R)\<rparr>))
       \<and> (\<exists>R1 R2. get_temporal_1d c u2 u_a t kz Nr_loc = Inr R1
            \<and> get_temporal_1d c (scaled k u2) u_a t kz Nr_loc = Inr R2
            \<and> shape R1 = shape u_a \<and> shape R2 = shape u_a
            \<and> length (data R1) = length (data u_a) \<and> length (data R2) = length (data u_a)
            \<and> (\<forall>q<length (data u_a).
                  data R2 ! q - data u_a ! q = k * (data R1 ! q - data u_a ! q)))"
  using radial_linear[OF u2 kz r] slice2d_linear[OF u3(1,2) kz u3(3) s]
    volume_linear[OF u3(1,2) kz] accumulate_linear[OF u2 kz a]
  by blast

theorem synthesis_linear_witness:
  "(\<exists>R. get_temporal_radial speed_of_light \<lparr>shape = [2, 2], data = [1, 2, 3, 4]\<rparr>
            \<lparr>shape = [1, 2], data = [0, 0]\<rparr> [0] [0, 1] = Inr R
       \<and> get_temporal_radial speed_of_light (scaled 3 \<lparr>shape = [2, 2], data = [1, 2, 3, 4]\<rparr>)
            \<lparr>shape = [1, 2], data = [0, 0]\<rparr> [0] [0, 1]
           = Inr (R\<lparr>data := map ((*) 3) (data R)\<rparr>))
   \<and> (\<exists>R. get_temporal_slice2d speed_of_light \<lparr>shape = [2, 1, 2], data = [1, 2, 3, 4]\<rparr>
            \<lparr>shape = [1, 1], data = [0]\<rparr> [0] [0, 1] = Inr R
       \<and> get_temporal_slice2d speed_of_light (scaled 3 \<lparr>shape = [2, 1, 2], data = [1, 2, 3, 4]\<rparr>)
            \<lparr>shape = [1, 1], data = [0]\<rparr> [0] [0, 1]
           = Inr (R\<lparr>data := map ((*) 3) (data R)\<rparr>))
   \<and> (\<exists>R. get_temporal_3d (\<lambda>_. 0) speed_of_light \<lparr>shape = [2, 1, 2], data = [1, 2, 3, 4]\<rparr>
            [0] [0, 1] = Inr R
       \<and> get_temporal_3d (\<lambda>_. 1) speed_of_light
            (scaled 3 \<lparr>shape = [2, 1, 2], data = [1, 2, 3, 4]\<rparr>) [0] [0, 1]
           = Inr (R\<lparr>data := map ((*) 3) (data R)\<rparr>))
   \<and> (\<exists>R1 R2. get_temporal_1d speed_of_light \<lparr>shape = [2, 2], data = [1, 2, 3, 4]\<rparr>
            \<lparr>shape = [2], data = [5, 6]\<rparr> [0] [0, 1] 2 = Inr R1
       \<and> get_temporal_1d speed_of_light (scaled 3 \<lparr>shape = [2, 2], data = [1, 2, 3, 4]\<rparr>)
            \<lparr>shape = [2], data = [5, 6]\<rparr> [0] [0, 1] 2 = Inr R2
       \<and> data R1 ! 0 - 5 = 10 \<and> data R2 ! 0 - 5 = 3 * (data R1 ! 0 - 5))"
proof -
  have u2: "shape \<lparr>shape = [2, 2], data = [1, 2, 3, 4 :: complex]\<rparr> = [2, 2]"
    "wf_array \<lparr>shape = [2, 2], data = [1, 2, 3, 4 :: complex]\<rparr>"
    by (simp_all add: wf_array_def)
  have u3: "shape \<lparr>shape = [2, 1, 2], data = [1, 2, 3, 4 :: complex]\<rparr> = [2, 1, 2]"
    "wf_array \<lparr>shape = [2, 1, 2], data = [1, 2, 3, 4 :: complex]\<rparr>" "0 < (2 :: nat)"
    by (simp_all add: wf_array_def)
  have kz: "length [0, 1 :: real] = 2" by simp
  have r: "shape \<lparr>shape = [1, 2], data = [0, 0 :: real]\<rparr> = [length [0 :: real], 2]"
    "wf_array \<lparr>shape = [1, 2], data = [0, 0 :: real]\<rparr>"
    by (simp_all add: wf_array_def)
  have s: "shape \<lparr>shape = [1, 1], data = [0 :: real]\<rparr> = [length [0 :: real], 1]"
    "wf_array \<lparr>shape = [1, 1], data = [0 :: real]\<rparr>"
    by (simp_all add: wf_array_def)
  have a: "shape \<lparr>shape = [2], data = [5, 6 :: real]\<rparr> = 2 # []" "last (2 # []) = (2 :: nat)"
    "wf_array \<lparr>shape = [2], data = [5, 6 :: real]\<rparr>" "length [0 :: real] \<le> 2"
    "nat 2 \<le> (2 :: nat)"
    by (simp_all add: wf_array_def)
  note t = synthesis_linear[where c = speed_of_light and junk = "\<lambda>_. 0" and junk' = "\<lambda>_. 1"
      and k = 3, OF u2 u3 kz r s a]
  have e: "get_temporal_1d speed_of_light \<lparr>shape = [2, 2], data = [1, 2, 3, 4]\<rparr>
            \<lparr>shape = [2], data = [5, 6]\<rparr> [0] [0, 1] 2 = Inr \<lparr>shape = [2], data = [15, 6]\<rparr>"
    by (simp add: get_temporal_1d_def FFT_factor_def upt_small attempt_def iadd_item_def
      column2_def synth_def bmul_def eval_nat_numeral)
  from t e show ?thesis
    by auto
qed

section \<open>The transverse-slice kernel\<close>

lemma slice2d_points:
  assumes u: "shape u = [Nkz, Nx, Ny]" "length kz = Nkz" "0 < Ny"
    and ut: "shape u_t = [M, Nx]" "wf_array u_t" "length t \<le> M"
  shows "\<exists>res. get_temporal_slice2d c u u_t t kz = Inr res
           \<and> shape res = [M, Nx] \<and> length (data res) = M * Nx
           \<and> (\<forall>it<length t. \<forall>ix<Nx.
                 at2 res it ix = synthesis c kz (t ! it) (\<lambda>k. at3 u k ix (mid_line Ny)))
           \<and> (\<forall>it ix. length t \<le> it \<and> it < M \<and> ix < Nx \<longrightarrow> at2 res it ix = at2 u_t it ix)"
proof -
  let ?res = "\<lparr>shape = [M, Nx],
                data = map (\<lambda>q. if q < length t * Nx
                                 then synthesis c kz (t ! (q div Nx))
                                        (\<lambda>k. at3 u k (q mod Nx) (mid_line Ny))
                                 else data u_t ! q) [0..<M * Nx]\<rparr>"
  have 1: "at2 ?res it ix = synthesis c kz (t ! it) (\<lambda>k. at3 u k ix (mid_line Ny))"
    if "it < length t" "ix < Nx" for it ix
  proof -
    have "it * Nx + ix < length t * Nx" using that by (rule flat_index_less)
    moreover have "it * Nx + ix < M * Nx" using that ut(3) by (intro flat_index_less) simp_all
    ultimately show ?thesis using that by (simp add: at2_def)
  qed
  have 2: "at2 ?res it ix = at2 u_t it ix" if "length t \<le> it" "it < M" "ix < Nx" for it ix
  proof -
    have "length t * Nx \<le> it * Nx" using that(1) by (rule mult_le_mono1)
    then have "\<not> it * Nx + ix < length t * Nx" by linarith
    moreover have "it * Nx + ix < M * Nx" using that by (intro flat_index_less) simp_all
    ultimately show ?thesis using ut by (simp add: at2_def)
  qed
  have "get_temporal_slice2d c u u_t t kz = Inr ?res"
    using u ut by (rule slice2d_closed)
  moreover have "shape ?res = [M, Nx]" "length (data ?res) = M * Nx" by simp_all
  ultimately show ?thesis using 1 2 by blast
qed

text \<open>
  C6. For \<open>u\<close> of shape \<open>[Nkz, Nx, Ny]\<close> with a line to read (\<open>Ny > 0\<close>), \<open>kz\<close> of length
  \<open>Nkz\<close> and a well-formed \<open>u_t\<close> of shape \<open>[M, Nx]\<close> with a row for every time, the
  transverse-slice kernel overwrites \<open>u_t[it, ix]\<close>, for every time and every \<open>ix\<close>, with the
  sum over the frequency axis of \<open>Re (u[:, ix, Ny//2-1] * exp(i kz c t[it]))\<close>: only the line
  that the index \<open>Ny//2-1\<close> selects is read. Rows of \<open>u_t\<close> beyond the times stay as they were.
\<close>

theorem get_temporal_slice2d_mid_line:
  assumes "shape u = [Nkz, Nx, Ny]" "wf_array u" "length kz = Nkz" "0 < Ny"
    and "shape u_t = [M, Nx]" "wf_array u_t" "length t \<le> M"
  shows "norm_index (int (Ny div 2) - 1) Ny = Inr (mid_line Ny)
       \<and> (\<exists>res. get_temporal_slice2d c u u_t t kz = Inr res
             \<and> shape res = [M, Nx] \<and> length (data res) = M * Nx
             \<and> (\<forall>it<length t. \<forall>ix<Nx.
                   at2 res it ix = synthesis c kz (t ! it) (\<lambda>k. at3 u k ix (mid_line Ny)))
             \<and> (\<forall>it ix. length t \<le> it \<and> it < M \<and> ix < Nx \<longrightarrow>
                   at2 res it ix = at2 u_t it ix))"
  using norm_index_mid(1)[OF assms(4)] slice2d_points[OF assms(1,3,4,5,6,7)] by simp

theorem get_temporal_slice2d_mid_line_witness:
  "norm_index (int (4 div 2) - 1) 4 = Inr (mid_line 4) \<and> mid_line 4 = 1
   \<and> (\<exists>res. get_temporal_slice2d speed_of_light
              \<lparr>shape = [1, 1, 4], data = [10, 20, 30, 40]\<rparr>
              \<lparr>shape = [1, 1], data = [0]\<rparr> [0] [0] = Inr res
         \<and> at2 res 0 0 = 20)"
proof -
  have h: "shape \<lparr>shape = [1, 1, 4], data = [10, 20, 30, 40 :: complex]\<rparr> = [1, 1, 4]"
    "wf_array \<lparr>shape = [1, 1, 4], data = [10, 20, 30, 40 :: complex]\<rparr>"
    "length [0 :: real] = 1" "0 < (4 :: nat)"
    "shape \<lparr>shape = [1, 1], data = [0 :: real]\<rparr> = [1, 1]"
    "wf_array \<lparr>shape = [1, 1], data = [0 :: real]\<rparr>"
    "length [0 :: real] \<le> 1"
    by (simp_all add: wf_array_def)
  have m: "mid_line 4 = 1" by (simp add: mid_line_def)
  have "synthesis speed_of_light [0] 0
          (\<lambda>k. at3 \<lparr>shape = [1, 1, 4], data = [10, 20, 30, 40]\<rparr> k 0 1) = 20"
    by (simp add: synthesis_def at3_def)
  then show ?thesis
    using get_temporal_slice2d_mid_line[OF h, of speed_of_light] m by auto
qed

text \<open>
  C10. For \<open>Ny \<ge> 1\<close> the index \<open>Ny//2-1\<close> is a valid index into the \<open>y\<close> axis: it is
  \<open>Ny//2-1\<close> itself from \<open>Ny = 2\<close> on, and for \<open>Ny = 1\<close> it is \<open>-1\<close>, which wraps to the
  only line, 0. So the kernel does not fail on it, and for \<open>Ny = 1\<close> it synthesises line 0.
\<close>

theorem slice2d_index_in_range:
  assumes "0 < Ny"
  shows "(\<exists>j. norm_index (int (Ny div 2) - 1) Ny = Inr j \<and> j < Ny
             \<and> (Ny = 1 \<longrightarrow> j = 0) \<and> (2 \<le> Ny \<longrightarrow> int j = int (Ny div 2) - 1))
       \<and> (shape u = [Nkz, Nx, Ny] \<and> wf_array u \<and> length kz = Nkz
            \<and> shape u_t = [M, Nx] \<and> wf_array u_t \<and> length t \<le> M \<longrightarrow>
          (\<exists>res. get_temporal_slice2d c u u_t t kz = Inr res
             \<and> (Ny = 1 \<longrightarrow> (\<forall>it<length t. \<forall>ix<Nx.
                   at2 res it ix = synthesis c kz (t ! it) (\<lambda>k. at3 u k ix 0)))))"
proof (intro conjI impI)
  have "Ny = 1 \<longrightarrow> mid_line Ny = 0" "2 \<le> Ny \<longrightarrow> int (mid_line Ny) = int (Ny div 2) - 1"
    by (auto simp: mid_line_def)
  then show "\<exists>j. norm_index (int (Ny div 2) - 1) Ny = Inr j \<and> j < Ny
             \<and> (Ny = 1 \<longrightarrow> j = 0) \<and> (2 \<le> Ny \<longrightarrow> int j = int (Ny div 2) - 1)"
    using norm_index_mid[OF assms] by blast
next
  assume a: "shape u = [Nkz, Nx, Ny] \<and> wf_array u \<and> length kz = Nkz
            \<and> shape u_t = [M, Nx] \<and> wf_array u_t \<and> length t \<le> M"
  have "Ny = 1 \<Longrightarrow> mid_line Ny = 0" by (simp add: mid_line_def)
  then show "\<exists>res. get_temporal_slice2d c u u_t t kz = Inr res
             \<and> (Ny = 1 \<longrightarrow> (\<forall>it<length t. \<forall>ix<Nx.
                   at2 res it ix = synthesis c kz (t ! it) (\<lambda>k. at3 u k ix 0)))"
    using slice2d_points[of u Nkz Nx Ny kz u_t M t c] a assms by auto
qed

theorem slice2d_index_in_range_witness:
  "(\<exists>j. norm_index (int (1 div 2) - 1) 1 = Inr j \<and> j = 0)
   \<and> (\<exists>res. get_temporal_slice2d speed_of_light \<lparr>shape = [1, 2, 1], data = [7, 9]\<rparr>
              \<lparr>shape = [1, 2], data = [0, 0]\<rparr> [0] [0] = Inr res
         \<and> at2 res 0 0 = 7 \<and> at2 res 0 1 = 9)"
proof -
  have h: "0 < (1 :: nat)" by simp
  have g: "shape \<lparr>shape = [1, 2, 1], data = [7, 9 :: complex]\<rparr> = [1, 2, 1]
      \<and> wf_array \<lparr>shape = [1, 2, 1], data = [7, 9 :: complex]\<rparr> \<and> length [0 :: real] = 1
      \<and> shape \<lparr>shape = [1, 2], data = [0, 0 :: real]\<rparr> = [1, 2]
      \<and> wf_array \<lparr>shape = [1, 2], data = [0, 0 :: real]\<rparr> \<and> length [0 :: real] \<le> 1"
    by (simp add: wf_array_def)
  have s: "synthesis speed_of_light [0] 0
          (\<lambda>k. at3 \<lparr>shape = [1, 2, 1], data = [7, 9]\<rparr> k 0 0) = 7"
     "synthesis speed_of_light [0] 0
          (\<lambda>k. at3 \<lparr>shape = [1, 2, 1], data = [7, 9]\<rparr> k 1 0) = 9"
    by (simp_all add: synthesis_def at3_def)
  note t = slice2d_index_in_range[OF h, where u = "\<lparr>shape = [1, 2, 1], data = [7, 9]\<rparr>"
      and Nkz = 1 and Nx = 2 and kz = "[0]" and u_t = "\<lparr>shape = [1, 2], data = [0, 0]\<rparr>"
      and M = 1 and t = "[0]" and c = speed_of_light]
  from t have 1: "\<exists>j. norm_index (int (1 div 2) - 1) 1 = Inr j \<and> j = 0" by auto
  from t g obtain res where r: "get_temporal_slice2d speed_of_light \<lparr>shape = [1, 2, 1], data = [7, 9]\<rparr>
              \<lparr>shape = [1, 2], data = [0, 0]\<rparr> [0] [0] = Inr res"
     "\<forall>it<length [0 :: real]. \<forall>ix<2. at2 res it ix = synthesis speed_of_light [0] ([0] ! it)
          (\<lambda>k. at3 \<lparr>shape = [1, 2, 1], data = [7, 9]\<rparr> k ix 0)"
    by auto
  from r(2) s have "at2 res 0 0 = 7" "at2 res 0 1 = 9" by auto
  with r(1) 1 show ?thesis by blast
qed

section \<open>The layout of the written files\<close>

lemma from_le_digits:
  "from_le (map (\<lambda>i. of_nat (m div 256 ^ i)) [0..<len]) = m mod 256 ^ len"
proof (induction len arbitrary: m)
  case 0
  then show ?case by simp
next
  case (Suc len)
  have "[0..<Suc len] = 0 # map Suc [0..<len]"
    by (simp add: upt_conv_Cons map_Suc_upt del: upt_Suc)
  then have "from_le (map (\<lambda>i. of_nat (m div 256 ^ i)) [0..<Suc len])
      = unat (of_nat m :: byte) + 256 * from_le (map (\<lambda>i. of_nat (m div 256 div 256 ^ i)) [0..<len])"
    by (simp add: o_def div_mult2_eq del: upt_Suc)
  also have "\<dots> = m mod 256 + 256 * (m div 256 mod 256 ^ len)"
    by (simp add: Suc.IH unat_of_nat)
  also have "\<dots> = m mod 256 ^ Suc len"
    by (simp add: mod_mult2_eq)
  finally show ?case .
qed

lemma to_bytes_ok:
  assumes "n < 256 ^ len"
  shows "\<exists>bs. to_bytes n len = Inr bs \<and> length bs = len \<and> from_le bs = n"
  using assms by (simp add: to_bytes_def from_le_digits)

lemma to_bytes_flag:
  "to_bytes 1 1 = Inr [1]" "to_bytes 0 1 = Inr [0]"
  "to_bytes (Suc 0) (Suc 0) = Inr [1]" "to_bytes 0 (Suc 0) = Inr [0]"
  by (simp_all add: to_bytes_def upt_small)

lemma item_first: "xs \<noteq> [] \<Longrightarrow> item xs 0 = Inr (hd xs)"
  by (cases xs) (simp_all add: item_def norm_index_def)

lemma item_last: "xs \<noteq> [] \<Longrightarrow> item xs (- 1) = Inr (last xs)"
  by (simp add: item_def norm_index_def Let_def last_conv_nth nat_diff_distrib')

lemma header_layout:
  assumes "length b0 = 1" "length b1 = 4" "length b2 = 4" "length b3 = 4"
  shows "take 1 (b0 @ b1 @ b2 @ b3 @ rest) = b0"
    "take 4 (drop 1 (b0 @ b1 @ b2 @ b3 @ rest)) = b1"
    "take 4 (drop 5 (b0 @ b1 @ b2 @ b3 @ rest)) = b2"
    "take 4 (drop 9 (b0 @ b1 @ b2 @ b3 @ rest)) = b3"
    "drop 13 (b0 @ b1 @ b2 @ b3 @ rest) = rest"
  using assms by simp_all

text \<open>
  C8. With fewer than \<open>2^32\<close> samples on each axis, \<open>write_file_unf\<close> on non-empty axes
  writes the flag byte 1, the three counts \<open>len(t)\<close>, \<open>len(x)\<close>, \<open>len(y)\<close> as little-endian
  unsigned integers in bytes 1-4, 5-8 and 9-12, then the first and the last value of \<open>t\<close> and
  of \<open>x\<close>, then \<open>y[0]\<close> alone when \<open>len(y) = 1\<close> and \<open>y[0]\<close>, \<open>y[-1]\<close> otherwise, then the
  whole field; \<open>write_file\<close> writes the flag byte 0, the same three counts, then \<open>t\<close>, \<open>x\<close>
  and \<open>y\<close> in full and the whole field.
\<close>

theorem writers_layout:
  assumes "length t < 2 ^ 32" "length x < 2 ^ 32" "length y < 2 ^ 32"
  shows "(t \<noteq> [] \<and> x \<noteq> [] \<and> y \<noteq> [] \<longrightarrow>
          (\<exists>out. write_file_unf enc encE x y t E = Inr out
             \<and> take 1 out = [1]
             \<and> from_le (take 4 (drop 1 out)) = length t
             \<and> from_le (take 4 (drop 5 out)) = length x
             \<and> from_le (take 4 (drop 9 out)) = length y
             \<and> drop 13 out = enc (hd t) @ enc (last t) @ enc (hd x) @ enc (last x)
                 @ (if length y = 1 then enc (hd y) else enc (hd y) @ enc (last y))
                 @ tobytes encE (data E)))
       \<and> (\<exists>out. write_file enc encE x y t E = Inr out
             \<and> take 1 out = [0]
             \<and> from_le (take 4 (drop 1 out)) = length t
             \<and> from_le (take 4 (drop 5 out)) = length x
             \<and> from_le (take 4 (drop 9 out)) = length y
             \<and> drop 13 out = tobytes enc t @ tobytes enc x @ tobytes enc y
                 @ tobytes encE (data E))"
proof -
  obtain bt where bt: "to_bytes (length t) 4 = Inr bt" "length bt = 4" "from_le bt = length t"
    using to_bytes_ok[of "length t" 4] assms(1) by auto
  obtain bx where bx: "to_bytes (length x) 4 = Inr bx" "length bx = 4" "from_le bx = length x"
    using to_bytes_ok[of "length x" 4] assms(2) by auto
  obtain cy where cy: "to_bytes (length y) 4 = Inr cy" "length cy = 4" "from_le cy = length y"
    using to_bytes_ok[of "length y" 4] assms(3) by auto
  have unf: "write_file_unf enc encE x y t E
      = Inr ([1] @ bt @ bx @ cy @ (enc (hd t) @ enc (last t) @ enc (hd x) @ enc (last x)
                 @ (if length y = 1 then enc (hd y) else enc (hd y) @ enc (last y))
                 @ tobytes encE (data E)))"
    if "t \<noteq> []" "x \<noteq> []" "y \<noteq> []"
    using that bt(1) bx(1) cy(1)
    by (simp add: write_file_unf_def attempt_def Let_def to_bytes_flag item_first item_last)
  have non: "write_file enc encE x y t E
      = Inr ([0] @ bt @ bx @ cy @ (tobytes enc t @ tobytes enc x @ tobytes enc y
                 @ tobytes encE (data E)))"
    using bt(1) bx(1) cy(1)
    by (simp add: write_file_def attempt_def Let_def to_bytes_flag)
  have l1: "length [1 :: byte] = 1" "length [0 :: byte] = 1" by simp_all
  have unf_part: "\<exists>out. write_file_unf enc encE x y t E = Inr out
             \<and> take 1 out = [1]
             \<and> from_le (take 4 (drop 1 out)) = length t
             \<and> from_le (take 4 (drop 5 out)) = length x
             \<and> from_le (take 4 (drop 9 out)) = length y
             \<and> drop 13 out = enc (hd t) @ enc (last t) @ enc (hd x) @ enc (last x)
                 @ (if length y = 1 then enc (hd y) else enc (hd y) @ enc (last y))
                 @ tobytes encE (data E)"
    if ne: "t \<noteq> [] \<and> x \<noteq> [] \<and> y \<noteq> []"
  proof -
    let ?rest = "enc (hd t) @ enc (last t) @ enc (hd x) @ enc (last x)
                 @ (if length y = 1 then enc (hd y) else enc (hd y) @ enc (last y))
                 @ tobytes encE (data E)"
    note h = header_layout[OF l1(1) bt(2) bx(2) cy(2), of ?rest]
    have w: "write_file_unf enc encE x y t E = Inr ([1] @ bt @ bx @ cy @ ?rest)"
      using ne by (intro unf) simp_all
    show ?thesis
      unfolding w
      by (intro exI[of _ "[1] @ bt @ bx @ cy @ ?rest"] conjI refl)
         (simp_all only: h bt(3) bx(3) cy(3))
  qed
  have non_part: "\<exists>out. write_file enc encE x y t E = Inr out
             \<and> take 1 out = [0]
             \<and> from_le (take 4 (drop 1 out)) = length t
             \<and> from_le (take 4 (drop 5 out)) = length x
             \<and> from_le (take 4 (drop 9 out)) = length y
             \<and> drop 13 out = tobytes enc t @ tobytes enc x @ tobytes enc y
                 @ tobytes encE (data E)"
  proof -
    let ?rest = "tobytes enc t @ tobytes enc x @ tobytes enc y @ tobytes encE (data E)"
    note h = header_layout[OF l1(2) bt(2) bx(2) cy(2), of ?rest]
    show ?thesis
      unfolding non
      by (intro exI[of _ "[0] @ bt @ bx @ cy @ ?rest"] conjI refl)
         (simp_all only: h bt(3) bx(3) cy(3))
  qed
  show ?thesis
    using unf_part non_part by blast
qed


theorem writers_layout_witness:
  "(\<exists>out. write_file_unf byte_enc byte_enc [2] [3] [1, 4] \<lparr>shape = [2, 1, 1], data = [5, 6]\<rparr>
            = Inr out
       \<and> take 1 out = [1]
       \<and> from_le (take 4 (drop 1 out)) = 2
       \<and> from_le (take 4 (drop 5 out)) = 1
       \<and> from_le (take 4 (drop 9 out)) = 1
       \<and> drop 13 out = [1, 4, 2, 2, 3, 5, 6])
   \<and> (\<exists>out. write_file byte_enc byte_enc [2] [3] [1, 4] \<lparr>shape = [2, 1, 1], data = [5, 6]\<rparr>
            = Inr out
       \<and> take 1 out = [0]
       \<and> from_le (take 4 (drop 1 out)) = 2
       \<and> from_le (take 4 (drop 5 out)) = 1
       \<and> from_le (take 4 (drop 9 out)) = 1
       \<and> drop 13 out = [1, 4, 2, 3, 5, 6])"
proof -
  have h: "length [1, 4 :: real] < 2 ^ 32" "length [2 :: real] < 2 ^ 32"
    "length [3 :: real] < 2 ^ 32"
    by simp_all
  have ne: "[1, 4 :: real] \<noteq> [] \<and> [2 :: real] \<noteq> [] \<and> [3 :: real] \<noteq> []" by simp
  note w = writers_layout[OF h, where enc = byte_enc and encE = byte_enc
      and E = "\<lparr>shape = [2, 1, 1], data = [5, 6]\<rparr>"]
  from w ne have a1: "\<exists>out. write_file_unf byte_enc byte_enc [2] [3] [1, 4]
            \<lparr>shape = [2, 1, 1], data = [5, 6]\<rparr> = Inr out
       \<and> take 1 out = [1]
       \<and> from_le (take 4 (drop 1 out)) = length [1, 4 :: real]
       \<and> from_le (take 4 (drop 5 out)) = length [2 :: real]
       \<and> from_le (take 4 (drop 9 out)) = length [3 :: real]
       \<and> drop 13 out = byte_enc (hd [1, 4]) @ byte_enc (last [1, 4]) @ byte_enc (hd [2])
             @ byte_enc (last [2])
             @ (if length [3 :: real] = 1 then byte_enc (hd [3])
                else byte_enc (hd [3]) @ byte_enc (last [3]))
             @ tobytes byte_enc (data \<lparr>shape = [2, 1, 1], data = [5, 6]\<rparr>)"
    by blast
  from w have a2: "\<exists>out. write_file byte_enc byte_enc [2] [3] [1, 4]
            \<lparr>shape = [2, 1, 1], data = [5, 6]\<rparr> = Inr out
       \<and> take 1 out = [0]
       \<and> from_le (take 4 (drop 1 out)) = length [1, 4 :: real]
       \<and> from_le (take 4 (drop 5 out)) = length [2 :: real]
       \<and> from_le (take 4 (drop 9 out)) = length [3 :: real]
       \<and> drop 13 out = tobytes byte_enc [1, 4] @ tobytes byte_enc [2] @ tobytes byte_enc [3]
             @ tobytes byte_enc (data \<lparr>shape = [2, 1, 1], data = [5, 6]\<rparr>)"
    by blast
  have e: "byte_enc 1 = [1]" "byte_enc 2 = [2]" "byte_enc 3 = [3]" "byte_enc 4 = [4]"
    "byte_enc 5 = [5]" "byte_enc 6 = [6]"
    by (simp_all add: byte_enc_def)
  from a1 have b1: "\<exists>out. write_file_unf byte_enc byte_enc [2] [3] [1, 4]
            \<lparr>shape = [2, 1, 1], data = [5, 6]\<rparr> = Inr out
       \<and> take 1 out = [1]
       \<and> from_le (take 4 (drop 1 out)) = 2
       \<and> from_le (take 4 (drop 5 out)) = 1
       \<and> from_le (take 4 (drop 9 out)) = 1
       \<and> drop 13 out = [1, 4, 2, 2, 3, 5, 6]"
    by (simp add: e tobytes_def numeral_2_eq_2)
  from a2 have b2: "\<exists>out. write_file byte_enc byte_enc [2] [3] [1, 4]
            \<lparr>shape = [2, 1, 1], data = [5, 6]\<rparr> = Inr out
       \<and> take 1 out = [0]
       \<and> from_le (take 4 (drop 1 out)) = 2
       \<and> from_le (take 4 (drop 5 out)) = 1
       \<and> from_le (take 4 (drop 9 out)) = 1
       \<and> drop 13 out = [1, 4, 2, 3, 5, 6]"
    by (simp add: e tobytes_def numeral_2_eq_2)
  from b1 b2 show ?thesis by (rule conjI)
qed

section \<open>The laser profile\<close>

lemma interp1d_outside:
  assumes "shape ys \<noteq> []" "length xs = last (shape ys)" "4 \<le> length xs"
    "spline xs ys = Inr f" "q < Min (set xs) \<or> Max (set xs) < q"
  shows "\<exists>g. interp1d spline xs ys fill = Inr g
           \<and> g q = \<lparr>shape = butlast (shape ys),
                      data = replicate (prod_list (butlast (shape ys))) fill\<rparr>"
  using assms by (auto simp: interp1d_def)

text \<open>
  C7 (amended). For a profile whose \<open>u\<close> is a well-formed \<open>[Nkz, Nr]\<close> array with
  \<open>Nkz > 0\<close>, whose \<open>kz\<close> has \<open>Nkz\<close> entries and whose radial axis has \<open>Nr \<ge> 4\<close> points on
  which the library builds its spline, a query whose radial coordinate \<open>sqrt(x^2 + y^2)\<close> is
  below the least or above the greatest \<open>r\<close> returns \<open>(0, 0)\<close>: the fill value, not an
  extrapolation and not an error.
\<close>

theorem E_field_outside_is_zero:
  assumes "shape (las_u self) = [Nkz, Nr]" "wf_array (las_u self)"
    and "length (las_kz self) = Nkz" "0 < Nkz"
    and "length (las_r self) = Nr" "4 \<le> Nr"
    and "\<forall>ys. shape ys = [Nr] \<longrightarrow> (\<exists>f. spline (las_r self) ys = Inr f)"
    and "sqrt (x * x + y * y) < Min (set (las_r self))
         \<or> Max (set (las_r self)) < sqrt (x * x + y * y)"
  shows "snd (E_field spline c self x y z t)
           = Inr (\<lparr>shape = [], data = [0]\<rparr>, \<lparr>shape = [], data = [0]\<rparr>)"
proof -
  let ?u_r = "\<lparr>shape = [Nr],
      data = map (\<lambda>j. synthesis c (las_kz self) (t + time_offset self)
                          (\<lambda>k. data (las_u self) ! (k * prod_list [Nr] + j))
                       / real (Nkz * prod_list [Nr])) [0..<prod_list [Nr]]\<rparr>"
  have g: "get_E_r c (t + time_offset self) (las_u self) (las_kz self) = Inr ?u_r"
    using assms(1,3,4) by (rule get_E_r_closed)
  have "shape ?u_r = [Nr]" by simp
  with assms(7) obtain f where f: "spline (las_r self) ?u_r = Inr f"
    by blast
  have "\<exists>g. interp1d spline (las_r self) ?u_r 0 = Inr g
           \<and> g (sqrt (x * x + y * y)) = \<lparr>shape = butlast (shape ?u_r),
                      data = replicate (prod_list (butlast (shape ?u_r))) 0\<rparr>"
    using assms(5,6) f assms(8) by (intro interp1d_outside) simp_all
  then obtain fu where fu: "interp1d spline (las_r self) ?u_r 0 = Inr fu"
    "fu (sqrt (x * x + y * y)) = \<lparr>shape = [], data = [0]\<rparr>"
    by auto
  show ?thesis
    unfolding E_field_def g using fu by (simp add: Let_def)
qed

theorem E_field_outside_is_zero_witness:
  "snd (E_field flat_spline speed_of_light demo_laser 5 0 7 0)
     = Inr (\<lparr>shape = [], data = [0]\<rparr>, \<lparr>shape = [], data = [0]\<rparr>)
   \<and> snd (E_field flat_spline speed_of_light demo_laser 1 0 7 0)
     = Inr (\<lparr>shape = [], data = [84]\<rparr>, \<lparr>shape = [], data = [126]\<rparr>)"
proof -
  have h: "shape (las_u demo_laser) = [1, 4]" "wf_array (las_u demo_laser)"
    "length (las_kz demo_laser) = 1" "0 < (1 :: nat)"
    "length (las_r demo_laser) = 4" "4 \<le> (4 :: nat)"
    "\<forall>ys. shape ys = [4] \<longrightarrow> (\<exists>f. flat_spline (las_r demo_laser) ys = Inr f)"
    by (simp_all add: demo_laser_def wf_array_def flat_spline_def)
  have s5: "sqrt (5 * 5 + 0 * 0) = 5" using real_sqrt_abs2[of 5] by simp
  have s1: "sqrt (1 * 1 + 0 * 0) = 1" by simp
  have o: "sqrt (5 * 5 + 0 * 0) < Min (set (las_r demo_laser))
         \<or> Max (set (las_r demo_laser)) < sqrt (5 * 5 + 0 * 0)"
    unfolding s5 by (simp add: demo_laser_def)
  have a: "snd (E_field flat_spline speed_of_light demo_laser 5 0 7 0)
     = Inr (\<lparr>shape = [], data = [0]\<rparr>, \<lparr>shape = [], data = [0]\<rparr>)"
    by (rule E_field_outside_is_zero[where spline = flat_spline and self = demo_laser
          and x = 5 and y = 0, OF h o])
  have b: "snd (E_field flat_spline speed_of_light demo_laser 1 0 7 0)
     = Inr (\<lparr>shape = [], data = [84]\<rparr>, \<lparr>shape = [], data = [126]\<rparr>)"
    unfolding E_field_def s1
    by (simp add: demo_laser_def get_E_r_def FFT_factor_def interp1d_def flat_spline_def
        upt_small)
  from a b show ?thesis by (rule conjI)
qed

text \<open>
  C7 as stated fails: not every profile answers a query beyond its radial grid with zero.
  \<open>E_field\<close> builds the cubic interpolant before it looks at the query, and a cubic needs
  four points: on a profile of three radial points the query at \<open>r_p = 5\<close>, beyond the
  greatest \<open>r = 2\<close>, raises \<^verbatim>\<open>ValueError\<close>.
\<close>

theorem E_field_outside_counterexample:
  "snd (E_field flat_spline speed_of_light short_laser 5 0 7 0) = Inl ValueError
   \<and> Max (set (las_r short_laser)) < sqrt (5 * 5 + 0 * 0)"
proof -
  have s5: "sqrt (5 * 5 + 0 * 0) = 5" using real_sqrt_abs2[of 5] by simp
  have "snd (E_field flat_spline speed_of_light short_laser 5 0 7 0) = Inl ValueError"
    by (simp add: E_field_def short_laser_def get_E_r_def FFT_factor_def interp1d_def
        flat_spline_def upt_small)
  moreover have "Max (set (las_r short_laser)) < sqrt (5 * 5 + 0 * 0)"
    unfolding s5 by (simp add: short_laser_def)
  ultimately show ?thesis by (rule conjI)
qed

text \<open>
  C9. \<open>E_field\<close> does not depend on \<open>z\<close>: two calls that differ only in \<open>z\<close> return the
  same, and a call leaves the profile (with its \<open>u\<close>, \<open>kz\<close> and \<open>r\<close>) as it was.
\<close>

theorem E_field_ignores_z:
  "E_field spline c self x y z1 t = E_field spline c self x y z2 t
   \<and> fst (E_field spline c self x y z t) = self"
  by (simp add: E_field_def)

end
